theory Spec2Isabelle
  imports Main "HOL-Library.List_Lexorder" "HOL-Library.Char_ord"
begin

section \<open>The session downloader of bbb-player.py\<close>

text \<open>
  A shallow embedding of \<^verbatim>\<open>src/bbb-player.py\<close>: the download pipeline
  (\<^verbatim>\<open>downloadScript\<close>, \<^verbatim>\<open>downloadFiles\<close>, \<^verbatim>\<open>downloadSlides\<close>,
  \<^verbatim>\<open>createFolder\<close>) and the listing page (\<^verbatim>\<open>hello\<close>).

  The Python functions act on the local file system, on the remote server and on the
  logger. The model passes an explicit \<open>world\<close> through every function and returns,
  next to the new world, the exception that left the function (\<open>None\<close> when the function
  returned normally). Everything the script does not define itself (the download backend,
  \<^verbatim>\<open>json.load\<close>, \<^verbatim>\<open>urlparse\<close>, the operating system's answer to
  \<^verbatim>\<open>makedirs\<close>, \<^verbatim>\<open>copy_tree\<close>) is a field of the record \<open>env\<close>, so that every
  theorem holds for every behaviour of these collaborators.
\<close>

subsection \<open>Python values, exceptions and log records\<close>

type_synonym path = string
type_synonym url = string
type_synonym bytes = string

text \<open>
  The exceptions that occur in the script. \<open>TransportError\<close> stands for every exception
  of the download backend that derives from \<^verbatim>\<open>Exception\<close> and is not an
  \<^verbatim>\<open>HTTPError\<close> (\<^verbatim>\<open>URLError\<close>, \<^verbatim>\<open>ContentTooShortError\<close>, an
  \<^verbatim>\<open>OSError\<close> on the local write, ...). \<open>ValueError\<close> covers its subclasses
  \<^verbatim>\<open>JSONDecodeError\<close> and \<^verbatim>\<open>UnicodeDecodeError\<close>; \<open>OSError\<close> covers
  \<^verbatim>\<open>FileNotFoundError\<close>, \<^verbatim>\<open>FileExistsError\<close> and \<^verbatim>\<open>PermissionError\<close>.
  \<open>SystemExit\<close> is what \<^verbatim>\<open>exit(1)\<close> raises; it derives from
  \<^verbatim>\<open>BaseException\<close> only, so \<^verbatim>\<open>except Exception\<close> does not catch it.
\<close>

datatype py_exception =
    HTTPError nat
  | TransportError
  | NameError string
  | TypeError
  | IndexError
  | KeyError
  | ValueError
  | OSError
  | DistutilsFileError
  | SystemExit nat

fun is_Exception :: "py_exception \<Rightarrow> bool" where
  "is_Exception (SystemExit c) = False"
| "is_Exception e = True"

fun is_OSError :: "py_exception \<Rightarrow> bool" where
  "is_OSError OSError = True"
| "is_OSError (HTTPError c) = True"
| "is_OSError e = False"

datatype level = DEBUG | INFO | WARNING | ERROR | CRITICAL

fun levelno :: "level \<Rightarrow> nat" where
  "levelno DEBUG = 10"
| "levelno INFO = 20"
| "levelno WARNING = 30"
| "levelno ERROR = 40"
| "levelno CRITICAL = 50"

text \<open>A log record: level, message, and the exception whose traceback
  \<^verbatim>\<open>logger.exception\<close> attaches.\<close>

datatype log_record = LogRecord level string "py_exception option"

text \<open>The answer of the download backend to one request.\<close>

datatype response = Fetched bytes | HTTP_error nat | Transport_error

text \<open>
  What \<^verbatim>\<open>json.load\<close> returns. An object is the list of its items in document
  order (the iteration order of the Python dict); the keys of a dict are distinct, and
  where a list repeats a key the model reads the first item. The script never looks at
  the value of a float, so \<open>JFloat\<close> carries none. Characters of a \<open>string\<close> stand
  for the code points of the Python \<^verbatim>\<open>str\<close>.
\<close>

datatype json =
    JNull
  | JBool bool
  | JInt int
  | JFloat
  | JString string
  | JArray "json list"
  | JObject "(string \<times> json) list"

subsection \<open>The environment and the world\<close>

text \<open>
  \<^item> \<open>smartDlEnabled\<close>: the module-level flag set by the import of pySmartDL (lines 26-31).
  \<^item> \<open>progressist_available\<close>: whether lines 290-292 run without an exception.
  \<^item> \<open>SCRIPT_DIR\<close>: line 19.
  \<^item> \<open>transport\<close>: what the backend answers when asked to fetch a URL to a local path.
  \<^item> \<open>json_load\<close>: the parser; \<open>None\<close> when it raises.
  \<^item> \<open>urlparse\<close>: scheme and netloc of a URL; \<open>None\<close> when \<^verbatim>\<open>urlparse\<close> raises.
  \<^item> \<open>mkdirs_effect\<close>: the directories after a successful \<^verbatim>\<open>os.makedirs\<close>;
    \<open>None\<close> when the operating system refuses (an \<^verbatim>\<open>OSError\<close>).
  \<^item> \<open>copy_tree_effect\<close>: the files and directories after a successful
    \<^verbatim>\<open>copy_tree\<close>; \<open>None\<close> when it raises \<^verbatim>\<open>DistutilsFileError\<close> (taken to
    leave the file system as it was).
  \<^item> \<open>open_w_raises\<close>: the exception of \<^verbatim>\<open>open(path, 'w')\<close>, if any.
\<close>

record env =
  smartDlEnabled :: bool
  progressist_available :: bool
  SCRIPT_DIR :: path
  transport :: "url \<Rightarrow> path \<Rightarrow> response"
  json_load :: "bytes \<Rightarrow> json option"
  urlparse :: "string \<Rightarrow> (string \<times> string) option"
  mkdirs_effect :: "path \<Rightarrow> path set \<Rightarrow> path set option"
  copy_tree_effect :: "path \<Rightarrow> path \<Rightarrow> (path \<rightharpoonup> bytes) \<times> path set
                         \<Rightarrow> ((path \<rightharpoonup> bytes) \<times> path set) option"
  open_w_raises :: "path \<Rightarrow> py_exception option"

text \<open>
  \<^item> \<open>files\<close>: the regular files of the local file system and their contents.
  \<^item> \<open>dirs\<close>: its directories.
  \<^item> \<open>log\<close>: the records the logger has emitted, oldest first.
  \<^item> \<open>attempts\<close>: the pairs (downloadURL, savePath) for which a \<^verbatim>\<open>try\<close> block of a
    fetch loop was entered (lines 65, 101, 131), oldest first.
  \<^item> \<open>requests\<close>: the pairs handed to the download backend, oldest first.
\<close>

record world =
  files :: "path \<rightharpoonup> bytes"
  dirs :: "path set"
  log :: "log_record list"
  attempts :: "(url \<times> path) list"
  requests :: "(url \<times> path) list"

type_synonym outcome = "py_exception option \<times> world"

subsection \<open>Library functions the script calls\<close>

text \<open>\<^verbatim>\<open>str(i)\<close> for a non-negative integer.\<close>

definition digit_char :: "nat \<Rightarrow> char" where
  "digit_char d = ''0123456789'' ! (d mod 10)"

function str_nat :: "nat \<Rightarrow> string" where
  "str_nat n = (if n < 10 then [digit_char n] else str_nat (n div 10) @ [digit_char (n mod 10)])"
  by pat_completeness auto
termination
  by (relation "measure id") auto

declare str_nat.simps [simp del]

text \<open>\<^verbatim>\<open>os.path.join\<close> of \<^verbatim>\<open>posixpath\<close>: a component that starts with the
  separator replaces what was joined so far.\<close>

fun startswith_sep :: "string \<Rightarrow> bool" where
  "startswith_sep [] = False"
| "startswith_sep (c # cs) = (c = CHR ''/'')"

definition endswith_sep :: "string \<Rightarrow> bool" where
  "endswith_sep s = (s \<noteq> [] \<and> last s = CHR ''/'')"

definition join_step :: "path \<Rightarrow> path \<Rightarrow> path" where
  "join_step p b =
     (if startswith_sep b then b
      else if p = [] \<or> endswith_sep p then p @ b
      else p @ ''/'' @ b)"

definition os_path_join :: "path \<Rightarrow> path list \<Rightarrow> path" where
  "os_path_join a p = foldl join_step a p"

text \<open>A path with an embedded null character is refused by Python itself, with a
  \<^verbatim>\<open>ValueError\<close>, before the operating system is asked.\<close>

definition embedded_null :: "path \<Rightarrow> bool" where
  "embedded_null p = (CHR 0x00 \<in> set p)"

definition os_path_isfile :: "world \<Rightarrow> path \<Rightarrow> bool" where
  "os_path_isfile w p = (\<not> embedded_null p \<and> files w p \<noteq> None)"

definition os_makedirs :: "env \<Rightarrow> path \<Rightarrow> world \<Rightarrow> outcome" where
  "os_makedirs env p w =
     (if embedded_null p then (Some ValueError, w)
      else case mkdirs_effect env p (dirs w) of
             None \<Rightarrow> (Some OSError, w)
           | Some d \<Rightarrow> (None, w\<lparr>dirs := d\<rparr>))"

subsection \<open>Logging (lines 13-24)\<close>

definition LOGGING_LEVEL :: level where
  "LOGGING_LEVEL = INFO"

definition logger_log :: "level \<Rightarrow> string \<Rightarrow> py_exception option \<Rightarrow> world \<Rightarrow> world" where
  "logger_log lvl msg exc w =
     (if levelno LOGGING_LEVEL \<le> levelno lvl
      then w\<lparr>log := log w @ [LogRecord lvl msg exc]\<rparr> else w)"

definition logger_debug :: "string \<Rightarrow> world \<Rightarrow> world" where
  "logger_debug msg = logger_log DEBUG msg None"

definition logger_info :: "string \<Rightarrow> world \<Rightarrow> world" where
  "logger_info msg = logger_log INFO msg None"

definition logger_warning :: "string \<Rightarrow> world \<Rightarrow> world" where
  "logger_warning msg = logger_log WARNING msg None"

definition logger_error :: "string \<Rightarrow> world \<Rightarrow> world" where
  "logger_error msg = logger_log ERROR msg None"

text \<open>\<^verbatim>\<open>logger.exception(msg)\<close> logs at level ERROR with the traceback of the
  exception being handled.\<close>

definition logger_exception :: "string \<Rightarrow> py_exception \<Rightarrow> world \<Rightarrow> world" where
  "logger_exception msg e = logger_log ERROR msg (Some e)"

subsection \<open>Control flow\<close>

text \<open>A \<^verbatim>\<open>for\<close> loop: the first exception that leaves the body leaves the loop.\<close>

fun for_each :: "('a \<Rightarrow> world \<Rightarrow> outcome) \<Rightarrow> 'a list \<Rightarrow> world \<Rightarrow> outcome" where
  "for_each body [] w = (None, w)"
| "for_each body (x # xs) w =
     (case body x w of
        (None, w') \<Rightarrow> for_each body xs w'
      | (Some e, w') \<Rightarrow> (Some e, w'))"

text \<open>Sequencing of two statements.\<close>

definition and_then :: "outcome \<Rightarrow> (world \<Rightarrow> outcome) \<Rightarrow> outcome" where
  "and_then r k = (case r of (None, w') \<Rightarrow> k w' | (Some e, w') \<Rightarrow> (Some e, w'))"

subsection \<open>The per-file fetch (lines 65-77, 101-115, 131-145)\<close>

text \<open>
  The body of the \<^verbatim>\<open>try\<close>. With the accelerated backend the request is made and its
  answer decides. Without it, the argument
  \<^verbatim>\<open>reporthook=bar.on_urlretrieve if bar else None\<close> is evaluated before
  \<^verbatim>\<open>urlretrieve\<close> is called; \<^verbatim>\<open>bar\<close> is a local variable of
  \<^verbatim>\<open>downloadScript\<close> and no global of that name exists, so the evaluation raises
  \<^verbatim>\<open>NameError\<close> and no request is made.
\<close>

definition try_fetch :: "env \<Rightarrow> url \<Rightarrow> path \<Rightarrow> world \<Rightarrow> outcome" where
  "try_fetch env downloadURL savePath w =
     (if smartDlEnabled env then
        (let w' = w\<lparr>requests := requests w @ [(downloadURL, savePath)]\<rparr> in
         case transport env downloadURL savePath of
           Fetched content \<Rightarrow> (None, w'\<lparr>files := (files w')(savePath \<mapsto> content)\<rparr>)
         | HTTP_error code \<Rightarrow> (Some (HTTPError code), w')
         | Transport_error \<Rightarrow> (Some TransportError, w'))
      else (Some (NameError ''bar''), w))"

text \<open>The two \<^verbatim>\<open>except\<close> clauses, in their order; \<open>warning\<close> is the text of the
  404 message. An exception neither clause matches propagates.\<close>

definition except_fetch :: "string \<Rightarrow> py_exception \<Rightarrow> world \<Rightarrow> outcome" where
  "except_fetch warning e w =
     (case e of
        HTTPError code \<Rightarrow>
          (if code = 404 then (None, logger_warning warning w) else (None, w))
      | _ \<Rightarrow>
          (if is_Exception e then (None, logger_exception '''' e w) else (Some e, w)))"

definition fetch :: "env \<Rightarrow> string \<Rightarrow> url \<Rightarrow> path \<Rightarrow> world \<Rightarrow> outcome" where
  "fetch env warning downloadURL savePath w =
     (case try_fetch env downloadURL savePath
             (w\<lparr>attempts := attempts w @ [(downloadURL, savePath)]\<rparr>) of
        (None, w') \<Rightarrow> (None, w')
      | (Some e, w') \<Rightarrow> except_fetch warning e w')"

subsection \<open>downloadFiles (lines 54-77)\<close>

definition filesForDL :: "string list" where
  "filesForDL =
     [''captions.json'', ''cursor.xml'', ''deskshare.xml'', ''presentation/deskshare.png'',
      ''metadata.xml'', ''panzooms.xml'', ''presentation_text.json'', ''shapes.svg'',
      ''slides_new.xml'', ''video/webcams.webm'', ''video/webcams.mp4'',
      ''deskshare/deskshare.webm'', ''deskshare/deskshare.mp4'']"

definition downloadFiles_body :: "env \<Rightarrow> url \<Rightarrow> path \<Rightarrow> nat \<times> string \<Rightarrow> world \<Rightarrow> outcome" where
  "downloadFiles_body env baseURL basePath = (\<lambda>(i, file) w.
     (let w1 = logger_info (''['' @ str_nat (i + 1) @ ''/'' @ str_nat (length filesForDL)
                              @ ''] Downloading '' @ file) w;
          downloadURL = baseURL @ file;
          w2 = logger_debug downloadURL w1;
          savePath = os_path_join basePath [file];
          w3 = logger_debug savePath w2
      in fetch env (''Did not download '' @ file @ '' because of 404 error'')
           downloadURL savePath w3))"

definition downloadFiles :: "env \<Rightarrow> url \<Rightarrow> path \<Rightarrow> world \<Rightarrow> outcome" where
  "downloadFiles env baseURL basePath w =
     for_each (downloadFiles_body env baseURL basePath) (enumerate 0 filesForDL) w"

subsection \<open>createFolder (lines 148-155)\<close>

definition createFolder :: "env \<Rightarrow> path \<Rightarrow> world \<Rightarrow> outcome" where
  "createFolder env p w =
     (case os_makedirs env p w of
        (None, w') \<Rightarrow>
          (None, logger_debug (''Successfully created the directory '' @ p @ '' '') w')
      | (Some e, w') \<Rightarrow>
          (if is_OSError e
           then (None, logger_debug (''Creation of the directory '' @ p @ '' failed'') w')
           else (Some e, w')))"

subsection \<open>Python operations on the parsed metadata\<close>

text \<open>\<^verbatim>\<open>len(x)\<close>: defined for strings, lists and dicts; a \<^verbatim>\<open>TypeError\<close>
  otherwise.\<close>

fun py_len :: "json \<Rightarrow> py_exception + nat" where
  "py_len (JString s) = Inr (length s)"
| "py_len (JArray xs) = Inr (length xs)"
| "py_len (JObject kvs) = Inr (length kvs)"
| "py_len v = Inl TypeError"

text \<open>\<^verbatim>\<open>for element in x\<close>: the keys of a dict, the items of a list, the
  characters of a string.\<close>

fun py_iter :: "json \<Rightarrow> py_exception + json list" where
  "py_iter (JObject kvs) = Inr (map (\<lambda>kv. JString (fst kv)) kvs)"
| "py_iter (JArray xs) = Inr xs"
| "py_iter (JString s) = Inr (map (\<lambda>c. JString [c]) s)"
| "py_iter v = Inl TypeError"

text \<open>\<^verbatim>\<open>xs[i]\<close> on a sequence: a negative index counts from the end.\<close>

definition py_index :: "'a list \<Rightarrow> int \<Rightarrow> py_exception + 'a" where
  "py_index xs i =
     (if 0 \<le> i
      then (if nat i < length xs then Inr (xs ! nat i) else Inl IndexError)
      else (if nat (- i) \<le> length xs then Inr (xs ! (length xs - nat (- i)))
            else Inl IndexError))"

definition index_of :: "json \<Rightarrow> int option" where
  "index_of key = (case key of JInt i \<Rightarrow> Some i | JBool b \<Rightarrow> Some (if b then 1 else 0) | _ \<Rightarrow> None)"

text \<open>\<^verbatim>\<open>x[key]\<close>. A dict raises \<^verbatim>\<open>KeyError\<close> for a missing key and
  \<^verbatim>\<open>TypeError\<close> for an unhashable one; a list or string wants an integer
  (\<^verbatim>\<open>bool\<close> is one); nothing else can be subscripted.\<close>

fun py_getitem :: "json \<Rightarrow> json \<Rightarrow> py_exception + json" where
  "py_getitem (JObject kvs) key =
     (case key of
        JString k \<Rightarrow> (case map_of kvs k of Some v \<Rightarrow> Inr v | None \<Rightarrow> Inl KeyError)
      | JArray xs \<Rightarrow> Inl TypeError
      | JObject xs \<Rightarrow> Inl TypeError
      | _ \<Rightarrow> Inl KeyError)"
| "py_getitem (JArray xs) key =
     (case index_of key of Some i \<Rightarrow> py_index xs i | None \<Rightarrow> Inl TypeError)"
| "py_getitem (JString s) key =
     (case index_of key of
        Some i \<Rightarrow> (case py_index s i of Inl e \<Rightarrow> Inl e | Inr c \<Rightarrow> Inr (JString [c]))
      | None \<Rightarrow> Inl TypeError)"
| "py_getitem v key = Inl TypeError"

subsection \<open>downloadSlides (lines 80-145)\<close>

text \<open>Lines 82-83: open the metadata file (its name is appended to \<open>basePath\<close>, not
  joined) and parse it.\<close>

definition load_metadata :: "env \<Rightarrow> path \<Rightarrow> world \<Rightarrow> py_exception + json" where
  "load_metadata env basePath w =
     (let p = basePath @ ''/presentation_text.json'' in
      if embedded_null p then Inl ValueError
      else case files w p of
             None \<Rightarrow> Inl OSError
           | Some content \<Rightarrow>
               (case json_load env content of
                  None \<Rightarrow> Inl ValueError
                | Some data \<Rightarrow> Inr data))"

text \<open>Lines 92-115, the body of the slide loop.\<close>

definition slide_body :: "env \<Rightarrow> url \<Rightarrow> path \<Rightarrow> string \<Rightarrow> nat \<Rightarrow> nat \<Rightarrow> world \<Rightarrow> outcome" where
  "slide_body env baseURL basePath element noSlides i w =
     (let w1 = logger_debug (''Downloading slide '' @ str_nat i @ ''/'' @ str_nat noSlides) w;
          downloadURL = baseURL @ ''presentation/'' @ element @ ''/slide-'' @ str_nat i @ ''.png'';
          savePath = os_path_join basePath
                       [''presentation'', element, ''slide-'' @ str_nat i @ ''.png''];
          w2 = logger_debug downloadURL w1;
          w3 = logger_debug savePath w2
      in fetch env (''Did not download '' @ element @ ''/slide-'' @ str_nat i @ ''.png'')
           downloadURL savePath w3)"

text \<open>Lines 123-145, the body of the thumbnail loop. Its 404 message names the slide,
  as the source does.\<close>

definition thumb_body :: "env \<Rightarrow> url \<Rightarrow> path \<Rightarrow> string \<Rightarrow> nat \<Rightarrow> world \<Rightarrow> outcome" where
  "thumb_body env baseURL basePath element i w =
     (let downloadURL = baseURL @ ''presentation/'' @ element @ ''/thumbnails/thumb-''
                          @ str_nat i @ ''.png'';
          savePath = os_path_join basePath
                       [''presentation'', element, ''thumbnails'', ''thumb-'' @ str_nat i @ ''.png''];
          w1 = logger_debug (''Download url:'' @ [CHR 0x09] @ downloadURL) w;
          w2 = logger_debug (''Download path:'' @ [CHR 0x09] @ savePath) w1
      in fetch env (''Did not download '' @ element @ ''/slide-'' @ str_nat i @ ''.png'')
           downloadURL savePath w2)"

text \<open>
  Lines 86-145, the body of the loop over the elements. Line 86 logs the element at level
  DEBUG, which the logger discards before it formats the message; the model has no text
  for a value that is not a string and leaves that call out. \<^verbatim>\<open>os.path.join\<close> raises
  \<^verbatim>\<open>TypeError\<close> for an element that is not a string.
\<close>

definition downloadSlides_body :: "env \<Rightarrow> url \<Rightarrow> path \<Rightarrow> json \<Rightarrow> json \<Rightarrow> world \<Rightarrow> outcome" where
  "downloadSlides_body env baseURL basePath data element w =
     (case py_getitem data element of
        Inl e \<Rightarrow> (Some e, w)
      | Inr v \<Rightarrow>
     (case py_len v of
        Inl e \<Rightarrow> (Some e, w)
      | Inr noSlides \<Rightarrow>
     (case element of
        JString el \<Rightarrow>
          and_then (createFolder env (os_path_join basePath [''presentation'', el])
                      (logger_debug (str_nat noSlides) w)) (\<lambda>w1.
          and_then (for_each (slide_body env baseURL basePath el noSlides) [1..<noSlides + 1]
                      (logger_info (''Downloading '' @ str_nat noSlides
                                      @ '' slides for the presentation'') w1)) (\<lambda>w2.
          and_then (createFolder env
                      (os_path_join basePath [''presentation'', el, ''thumbnails'']) w2) (\<lambda>w3.
          for_each (thumb_body env baseURL basePath el) [1..<noSlides + 1]
            (logger_info (''Downloading '' @ str_nat noSlides
                            @ '' thumbnails for the presentation'') w3))))
      | _ \<Rightarrow> (Some TypeError, logger_debug (str_nat noSlides) w))))"

definition downloadSlides :: "env \<Rightarrow> url \<Rightarrow> path \<Rightarrow> world \<Rightarrow> outcome" where
  "downloadSlides env baseURL basePath w =
     (case load_metadata env basePath w of
        Inl e \<Rightarrow> (Some e, w)
      | Inr data \<Rightarrow>
     (case py_len data of
        Inl e \<Rightarrow> (Some e, w)
      | Inr n \<Rightarrow>
     (case py_iter data of
        Inl e \<Rightarrow> (Some e, logger_info (''Downloading '' @ str_nat n @ '' presentations'') w)
      | Inr elements \<Rightarrow>
          for_each (downloadSlides_body env baseURL basePath data) elements
            (logger_info (''Downloading '' @ str_nat n @ '' presentations'') w))))"

subsection \<open>The pattern of line 251\<close>

text \<open>
  \<^verbatim>\<open>re.search(r"/?(\d+\.\d+)/.*?([0-9a-f]{40}-\d{13})/?", inputURL, re.IGNORECASE)\<close>,
  written out as the backtracking matcher runs it.
  \<^item> \<open>re_search\<close> tries the start positions from left to right.
  \<^item> At a start position (\<open>match_here\<close>), \<^verbatim>\<open>/?\<close> takes a slash when there is one
    (without it the digits that follow could not match the slash).
  \<^item> \<open>version_here\<close> is \<^verbatim>\<open>(\d+\.\d+)/\<close>: each \<^verbatim>\<open>\d+\<close> is greedy and is
    followed by a character that is not a digit, so it takes the whole run of digits.
  \<^item> \<open>lazy_any_then_id\<close> is \<^verbatim>\<open>.*?\<close> followed by the second group: the
    shortest skip first, and \<^verbatim>\<open>.\<close> does not match a newline.
  \<^item> \<open>id_here\<close> is \<^verbatim>\<open>([0-9a-f]{40}-\d{13})\<close>; with \<^verbatim>\<open>re.IGNORECASE\<close> the
    class also has the capital letters. The final \<^verbatim>\<open>/?\<close> always matches.
  The result is the pair of the two groups.
\<close>

definition is_digit :: "char \<Rightarrow> bool" where
  "is_digit c = (c \<in> set ''0123456789'')"

definition is_hex :: "char \<Rightarrow> bool" where
  "is_hex c = (c \<in> set ''0123456789abcdefABCDEF'')"

definition id_here :: "string \<Rightarrow> string option" where
  "id_here s =
     (let h = take 40 s; d = take 13 (drop 41 s)
      in if length h = 40 \<and> list_all is_hex h \<and> take 1 (drop 40 s) = ''-''
            \<and> length d = 13 \<and> list_all is_digit d
         then Some (h @ ''-'' @ d) else None)"

fun lazy_any_then_id :: "string \<Rightarrow> string option" where
  "lazy_any_then_id [] = id_here []"
| "lazy_any_then_id (c # cs) =
     (case id_here (c # cs) of
        Some g \<Rightarrow> Some g
      | None \<Rightarrow> (if c = CHR 0x0A then None else lazy_any_then_id cs))"

definition version_here :: "string \<Rightarrow> (string \<times> string) option" where
  "version_here s =
     (let d1 = takeWhile is_digit s; d2 = takeWhile is_digit (drop 1 (dropWhile is_digit s));
          r = dropWhile is_digit (drop 1 (dropWhile is_digit s))
      in if d1 \<noteq> [] \<and> take 1 (dropWhile is_digit s) = ''.'' \<and> d2 \<noteq> [] \<and> take 1 r = ''/''
         then Some (d1 @ ''.'' @ d2, drop 1 r) else None)"

definition match_here :: "string \<Rightarrow> (string \<times> string) option" where
  "match_here s =
     (case version_here (if startswith_sep s then tl s else s) of
        None \<Rightarrow> None
      | Some (v, rest) \<Rightarrow>
          (case lazy_any_then_id rest of
             None \<Rightarrow> None
           | Some g \<Rightarrow> Some (v, g)))"

fun re_search :: "string \<Rightarrow> (string \<times> string) option" where
  "re_search [] = match_here []"
| "re_search (c # cs) =
     (case match_here (c # cs) of
        Some g \<Rightarrow> Some g
      | None \<Rightarrow> re_search cs)"

subsection \<open>downloadScript (lines 249-308)\<close>

definition DOWNLOADED_FULLY_FILENAME :: string where
  "DOWNLOADED_FULLY_FILENAME = ''rec_fully_downloaded.txt''"

definition DOWNLOADED_MEETINGS_FOLDER :: string where
  "DOWNLOADED_MEETINGS_FOLDER = ''downloadedMeetings''"

definition copy_tree :: "env \<Rightarrow> path \<Rightarrow> path \<Rightarrow> world \<Rightarrow> outcome" where
  "copy_tree env src dst w =
     (case copy_tree_effect env src dst (files w, dirs w) of
        None \<Rightarrow> (Some DistutilsFileError, w)
      | Some (fs, ds) \<Rightarrow> (None, w\<lparr>files := fs, dirs := ds\<rparr>))"

text \<open>\<^verbatim>\<open>with open(path, 'w') as fp: pass\<close>: the file is created or truncated.\<close>

definition open_w :: "env \<Rightarrow> path \<Rightarrow> world \<Rightarrow> outcome" where
  "open_w env p w =
     (case open_w_raises env p of
        Some e \<Rightarrow> (Some e, w)
      | None \<Rightarrow> (None, w\<lparr>files := (files w)(p \<mapsto> [])\<rparr>))"

text \<open>Lines 298-308: the two fetch phases, the copy of the player, the sentinel.\<close>

definition download_and_mark :: "env \<Rightarrow> url \<Rightarrow> path \<Rightarrow> world \<Rightarrow> outcome" where
  "download_and_mark env baseURL folderPath w =
     and_then (downloadFiles env baseURL folderPath w) (\<lambda>w1.
     and_then (downloadSlides env baseURL folderPath w1) (\<lambda>w2.
     and_then (copy_tree env (os_path_join (SCRIPT_DIR env) [''player23'']) folderPath w2) (\<lambda>w3.
     open_w env (os_path_join folderPath [DOWNLOADED_FULLY_FILENAME]) w3)))"

text \<open>Lines 289-296: the import of progressist only decides whether a warning is logged
  (\<^verbatim>\<open>bar\<close> is a local variable that nothing reads).\<close>

definition import_progressist :: "env \<Rightarrow> world \<Rightarrow> world" where
  "import_progressist env w =
     (if progressist_available env then w
      else logger_warning (''progressist not imported. Progress bar will not be shown. ''
             @ ''Try running: '' @ replicate 32 CHR '' '' @ ''pip3 install progressist'') w)"

text \<open>Lines 276-308, once the base URL and the folder are known.\<close>

definition download_session :: "env \<Rightarrow> url \<Rightarrow> path \<Rightarrow> world \<Rightarrow> outcome" where
  "download_session env baseURL folderPath w =
     (if os_path_isfile w (os_path_join folderPath [DOWNLOADED_FULLY_FILENAME])
      then (None, logger_info ''Meeting is already downloaded.'' w)
      else
        and_then (for_each (createFolder env)
                    (map (\<lambda>x. os_path_join folderPath [x])
                       [[], ''video'', ''deskshare'', ''presentation''])
                    (logger_info
                       ''Folder already created but not everything was downloaded. Retrying.'' w))
          (\<lambda>w1. download_and_mark env baseURL folderPath (import_progressist env w1)))"

text \<open>Lines 263-265 and 268-273.\<close>

definition baseURL_of :: "string \<Rightarrow> string \<Rightarrow> string \<Rightarrow> url" where
  "baseURL_of scheme netloc meetingId =
     scheme @ ''://'' @ netloc @ ''/presentation/'' @ meetingId @ ''/''"

definition folderPath_of :: "env \<Rightarrow> string \<Rightarrow> string \<Rightarrow> path" where
  "folderPath_of env meetingNameWanted meetingId =
     (if meetingNameWanted \<noteq> []
      then os_path_join (SCRIPT_DIR env) [DOWNLOADED_MEETINGS_FOLDER, meetingNameWanted]
      else os_path_join (SCRIPT_DIR env) [DOWNLOADED_MEETINGS_FOLDER, meetingId])"

definition downloadScript :: "env \<Rightarrow> string \<Rightarrow> string \<Rightarrow> world \<Rightarrow> outcome" where
  "downloadScript env inputURL meetingNameWanted w =
     (case re_search inputURL of
        None \<Rightarrow>
          (Some (SystemExit 1), logger_error ''Meeting ID could not be found in the url.'' w)
      | Some (bbbVersion, meetingId) \<Rightarrow>
          (let w1 = logger_info (''Detected bbb version:'' @ [CHR 0x09] @ bbbVersion) w;
               w2 = logger_info (''Detected meeting id:'' @ [CHR 0x09] @ meetingId) w1
           in case urlparse env inputURL of
                None \<Rightarrow> (Some ValueError, w2)
              | Some (scheme, netloc) \<Rightarrow>
                  (let baseURL = baseURL_of scheme netloc meetingId;
                       w3 = logger_debug (''Base url: '' @ baseURL) w2;
                       folderPath = folderPath_of env meetingNameWanted meetingId;
                       w4 = logger_debug (''Folder path: '' @ folderPath) w3
                   in download_session env baseURL folderPath w4)))"

subsection \<open>hello (lines 218-239)\<close>

text \<open>
  The page reads the file system through \<^verbatim>\<open>os.listdir\<close>, \<^verbatim>\<open>os.path.isdir\<close> and
  \<^verbatim>\<open>os.path.isfile\<close>; these three are the record \<open>fs_view\<close> (\<open>listdir\<close> is
  \<open>None\<close> when it raises). The result is what is handed to \<^verbatim>\<open>render_template\<close>:
  the list of (link, name) pairs and the message; next to it, the log records emitted
  (the warning of line 224 passes the level of line 13).
\<close>

record fs_view =
  listdir :: "path \<Rightarrow> string list option"
  isdir :: "path \<Rightarrow> bool"
  isfile :: "path \<Rightarrow> bool"

definition downloadedMeetingsFolderPath :: "path \<Rightarrow> path" where
  "downloadedMeetingsFolderPath script_dir = os_path_join script_dir [DOWNLOADED_MEETINGS_FOLDER]"

definition meetingLink :: "path \<Rightarrow> fs_view \<Rightarrow> string \<Rightarrow> string \<times> string" where
  "meetingLink script_dir fs m =
     (if isfile fs (os_path_join (downloadedMeetingsFolderPath script_dir) [m, ''index.html''])
         \<and> isfile fs (os_path_join (downloadedMeetingsFolderPath script_dir)
                        [m, ''asset-manifest.json''])
      then (''/'' @ DOWNLOADED_MEETINGS_FOLDER @ ''/'' @ m @ ''/index.html'', m)
      else (''/'' @ DOWNLOADED_MEETINGS_FOLDER @ ''/'' @ m @ ''/player/playback.html'', m))"

definition hello ::
  "path \<Rightarrow> fs_view \<Rightarrow> string
     \<Rightarrow> (py_exception + (string \<times> string) list \<times> string) \<times> log_record list" where
  "hello script_dir fs message =
     (case listdir fs (downloadedMeetingsFolderPath script_dir) of
        None \<Rightarrow> (Inl OSError, [])
      | Some names \<Rightarrow>
          (let meetingFolders =
                 sort (filter (\<lambda>folder. isdir fs (os_path_join
                                  (downloadedMeetingsFolderPath script_dir) [folder])) names)
           in (Inr (map (meetingLink script_dir fs) meetingFolders, message),
               if length meetingFolders = 0
               then [LogRecord WARNING (''Meeting folder /'' @ DOWNLOADED_MEETINGS_FOLDER
                       @ '' is empty. Download at least one meeting first using the ''
                       @ ''--download argument'') None]
               else [])))"

section \<open>Notions used in the statements\<close>

text \<open>The log records one per-file fetch leaves, by backend and answer.\<close>

definition fetch_records :: "env \<Rightarrow> string \<Rightarrow> url \<Rightarrow> path \<Rightarrow> log_record list" where
  "fetch_records env warning u p =
     (if smartDlEnabled env then
        (case transport env u p of
           Fetched c \<Rightarrow> []
         | HTTP_error code \<Rightarrow> (if code = 404 then [LogRecord WARNING warning None] else [])
         | Transport_error \<Rightarrow> [LogRecord ERROR [] (Some TransportError)])
      else [LogRecord ERROR [] (Some (NameError ''bar''))])"

text \<open>The (downloadURL, savePath) pair of slide \<open>i\<close> and of thumbnail \<open>i\<close> of an element
  (lines 93-96 and 123-126).\<close>

definition slide_job :: "url \<Rightarrow> path \<Rightarrow> string \<Rightarrow> nat \<Rightarrow> url \<times> path" where
  "slide_job baseURL basePath element i =
     (baseURL @ ''presentation/'' @ element @ ''/slide-'' @ str_nat i @ ''.png'',
      os_path_join basePath [''presentation'', element, ''slide-'' @ str_nat i @ ''.png''])"

definition thumb_job :: "url \<Rightarrow> path \<Rightarrow> string \<Rightarrow> nat \<Rightarrow> url \<times> path" where
  "thumb_job baseURL basePath element i =
     (baseURL @ ''presentation/'' @ element @ ''/thumbnails/thumb-'' @ str_nat i @ ''.png'',
      os_path_join basePath
        [''presentation'', element, ''thumbnails'', ''thumb-'' @ str_nat i @ ''.png''])"

text \<open>The number of slides of an element: the length of its entry in the metadata
  (0 where the entry has no length).\<close>

definition slideCount :: "json \<Rightarrow> json \<Rightarrow> nat" where
  "slideCount data element =
     (case py_getitem data element of
        Inl e \<Rightarrow> 0
      | Inr v \<Rightarrow> (case py_len v of Inl e \<Rightarrow> 0 | Inr n \<Rightarrow> n))"

definition elements_of :: "json \<Rightarrow> json list" where
  "elements_of data = (case py_iter data of Inl e \<Rightarrow> [] | Inr elements \<Rightarrow> elements)"

text \<open>The fetches of one element: its slides in ascending order, then its thumbnails.\<close>

definition element_jobs :: "url \<Rightarrow> path \<Rightarrow> json \<Rightarrow> json \<Rightarrow> (url \<times> path) list" where
  "element_jobs baseURL basePath data element =
     (case element of
        JString el \<Rightarrow>
          map (slide_job baseURL basePath el) [1..<slideCount data element + 1]
          @ map (thumb_job baseURL basePath el) [1..<slideCount data element + 1]
      | _ \<Rightarrow> [])"

text \<open>
  The elements on which the loop body of \<^verbatim>\<open>downloadSlides\<close> raises: the entry
  cannot be read or has no length, the element is not a string, or one of its two
  directory names has an embedded null character.
\<close>

definition fatal_element :: "path \<Rightarrow> json \<Rightarrow> json \<Rightarrow> bool" where
  "fatal_element basePath data element =
     (case py_getitem data element of
        Inl e \<Rightarrow> True
      | Inr v \<Rightarrow>
     (case py_len v of
        Inl e \<Rightarrow> True
      | Inr n \<Rightarrow>
     (case element of
        JString el \<Rightarrow>
          embedded_null (os_path_join basePath [''presentation'', el])
          \<or> embedded_null (os_path_join basePath [''presentation'', el, ''thumbnails''])
      | _ \<Rightarrow> True)))"

text \<open>The parsed documents on which \<^verbatim>\<open>downloadSlides\<close> raises after the parse.\<close>

definition malformed :: "path \<Rightarrow> json \<Rightarrow> bool" where
  "malformed basePath data =
     (case py_len data of
        Inl e \<Rightarrow> True
      | Inr n \<Rightarrow>
     (case py_iter data of
        Inl e \<Rightarrow> True
      | Inr elements \<Rightarrow> list_ex (fatal_element basePath data) elements))"

text \<open>40 hexadecimal digits, a hyphen, 13 decimal digits.\<close>

definition is_session_id :: "string \<Rightarrow> bool" where
  "is_session_id s =
     (length s = 54 \<and> list_all is_hex (take 40 s) \<and> s ! 40 = CHR ''-''
      \<and> list_all is_digit (drop 41 s))"

text \<open>The progress record of line 59, and the path of the sentinel (lines 276 and 304).\<close>

definition progress_record :: "nat \<times> string \<Rightarrow> log_record" where
  "progress_record = (\<lambda>(i, file).
     LogRecord INFO (''['' @ str_nat (i + 1) @ ''/'' @ str_nat (length filesForDL)
                       @ ''] Downloading '' @ file) None)"

definition sentinel_path :: "path \<Rightarrow> path" where
  "sentinel_path folderPath = os_path_join folderPath [DOWNLOADED_FULLY_FILENAME]"

text \<open>The world after the two fetch phases of lines 298-299.\<close>

definition after_phases :: "env \<Rightarrow> url \<Rightarrow> path \<Rightarrow> world \<Rightarrow> world" where
  "after_phases env baseURL folderPath w =
     snd (downloadSlides env baseURL folderPath (snd (downloadFiles env baseURL folderPath w)))"

subsection \<open>Examples\<close>

text \<open>
  A concrete environment and world for the examples: the backend flag, the backend's
  answers, the parser and the player copy are arguments; the script lives in
  \<^verbatim>\<open>/srv\<close>, every directory can be created, every file can be opened for
  writing.
\<close>

definition example_env ::
  "bool \<Rightarrow> (url \<Rightarrow> path \<Rightarrow> response) \<Rightarrow> (bytes \<Rightarrow> json option) \<Rightarrow> bool \<Rightarrow> env" where
  "example_env backend answers parser player =
     \<lparr>smartDlEnabled = backend, progressist_available = False, SCRIPT_DIR = ''/srv'',
      transport = answers, json_load = parser,
      urlparse = (\<lambda>u. Some (''https'', ''bbb.example'')),
      mkdirs_effect = (\<lambda>p d. Some (insert p d)),
      copy_tree_effect = (\<lambda>src dst fs. if player then Some fs else None),
      open_w_raises = (\<lambda>p. None)\<rparr>"

definition empty_world :: world where
  "empty_world = \<lparr>files = Map.empty, dirs = {}, log = [], attempts = [], requests = []\<rparr>"

text \<open>A server that has the metadata file and nothing else.\<close>

definition example_answers :: "url \<Rightarrow> path \<Rightarrow> response" where
  "example_answers u p =
     (if u = ''https://h/presentation_text.json'' then Fetched ''doc'' else HTTP_error 404)"

text \<open>
  A file system as the page sees it: the meetings root holds the session folders
  \<^verbatim>\<open>m1\<close> and \<^verbatim>\<open>m2\<close> and a plain file; \<^verbatim>\<open>m1\<close> has the player files when
  \<open>player\<close> is true and the sentinel when \<open>marked\<close> is true; \<^verbatim>\<open>m2\<close> has neither.
\<close>

definition example_fs :: "bool \<Rightarrow> bool \<Rightarrow> fs_view" where
  "example_fs player marked =
     \<lparr>listdir = (\<lambda>p. if p = ''/srv/downloadedMeetings'' then Some [''m2'', ''m1'', ''notes.txt'']
                      else None),
      isdir = (\<lambda>p. p \<in> {''/srv/downloadedMeetings/m1'', ''/srv/downloadedMeetings/m2''}),
      isfile = (\<lambda>p. if p = ''/srv/downloadedMeetings/m1/rec_fully_downloaded.txt'' then marked
                     else if p \<in> {''/srv/downloadedMeetings/m1/index.html'',
                                   ''/srv/downloadedMeetings/m1/asset-manifest.json''} then player
                     else False)\<rparr>"


section \<open>Basic facts\<close>

subsection \<open>Logging and the per-file fetch\<close>

lemma logger_debug_id [simp]: "logger_debug msg w = w"
  by (simp add: logger_debug_def logger_log_def LOGGING_LEVEL_def)

lemma logger_log_frame [simp]:
  "files (logger_log l m e w) = files w"
  "dirs (logger_log l m e w) = dirs w"
  "attempts (logger_log l m e w) = attempts w"
  "requests (logger_log l m e w) = requests w"
  by (simp_all add: logger_log_def)

lemma log_logger_info [simp]: "log (logger_info m w) = log w @ [LogRecord INFO m None]"
  by (simp add: logger_info_def logger_log_def LOGGING_LEVEL_def)

lemma log_logger_warning [simp]: "log (logger_warning m w) = log w @ [LogRecord WARNING m None]"
  by (simp add: logger_warning_def logger_log_def LOGGING_LEVEL_def)

lemma log_logger_error [simp]: "log (logger_error m w) = log w @ [LogRecord ERROR m None]"
  by (simp add: logger_error_def logger_log_def LOGGING_LEVEL_def)

lemma log_logger_exception [simp]:
  "log (logger_exception m e w) = log w @ [LogRecord ERROR m (Some e)]"
  by (simp add: logger_exception_def logger_log_def LOGGING_LEVEL_def)

lemma logger_frame [simp]:
  "files (logger_info m w) = files w" "dirs (logger_info m w) = dirs w"
  "attempts (logger_info m w) = attempts w" "requests (logger_info m w) = requests w"
  "files (logger_warning m w) = files w" "dirs (logger_warning m w) = dirs w"
  "attempts (logger_warning m w) = attempts w" "requests (logger_warning m w) = requests w"
  "files (logger_error m w) = files w" "dirs (logger_error m w) = dirs w"
  "attempts (logger_error m w) = attempts w" "requests (logger_error m w) = requests w"
  "files (logger_exception m e w) = files w" "dirs (logger_exception m e w) = dirs w"
  "attempts (logger_exception m e w) = attempts w" "requests (logger_exception m e w) = requests w"
  by (simp_all add: logger_info_def logger_warning_def logger_error_def logger_exception_def)

lemma fetch_returns [simp]: "fst (fetch env warning u p w) = None"
  by (simp add: fetch_def try_fetch_def except_fetch_def Let_def split: response.splits)

lemma fetch_attempts [simp]: "attempts (snd (fetch env warning u p w)) = attempts w @ [(u, p)]"
  by (simp add: fetch_def try_fetch_def except_fetch_def Let_def split: response.splits)

lemma fetch_requests [simp]:
  "requests (snd (fetch env warning u p w)) = requests w @ (if smartDlEnabled env then [(u, p)] else [])"
  by (simp add: fetch_def try_fetch_def except_fetch_def Let_def split: response.splits)

lemma fetch_dirs [simp]: "dirs (snd (fetch env warning u p w)) = dirs w"
  by (simp add: fetch_def try_fetch_def except_fetch_def Let_def split: response.splits)

lemma fetch_log [simp]: "log (snd (fetch env warning u p w)) = log w @ fetch_records env warning u p"
  by (simp add: fetch_def try_fetch_def except_fetch_def fetch_records_def Let_def split: response.splits)

lemma fetch_files:
  "files (snd (fetch env warning u p w)) =
     (if smartDlEnabled env
      then (case transport env u p of Fetched c \<Rightarrow> (files w)(p \<mapsto> c) | _ \<Rightarrow> files w)
      else files w)"
  by (simp add: fetch_def try_fetch_def except_fetch_def Let_def split: response.splits)

subsection \<open>Loops\<close>

lemma for_each_returns:
  assumes "\<And>x w. fst (body x w) = None"
  shows "fst (for_each body xs w) = None"
proof (induction xs arbitrary: w)
  case Nil
  show ?case by simp
next
  case (Cons x xs)
  obtain w' where "body x w = (None, w')"
    using assms [of x w] by (cases "body x w") auto
  then show ?case using Cons.IH by simp
qed

lemma for_each_trace:
  fixes f :: "world \<Rightarrow> 'b list"
  assumes "\<And>x w. fst (body x w) = None"
    and "\<And>x w. f (snd (body x w)) = f w @ g x"
  shows "f (snd (for_each body xs w)) = f w @ concat (map g xs)"
proof (induction xs arbitrary: w)
  case Nil
  show ?case by simp
next
  case (Cons x xs)
  obtain w' where b: "body x w = (None, w')"
    using assms(1) [of x w] by (cases "body x w") auto
  have "f w' = f w @ g x" using assms(2) [of x w] b by simp
  then show ?case using Cons.IH [of w'] b by simp
qed

lemma for_each_frame:
  assumes "\<And>x w. f (snd (body x w)) = f w"
  shows "f (snd (for_each body xs w)) = f w"
proof (induction xs arbitrary: w)
  case Nil
  show ?case by simp
next
  case (Cons x xs)
  show ?case
  proof (cases "body x w")
    case (Pair r w')
    have "f w' = f w" using assms [of x w] Pair by simp
    then show ?thesis using Cons.IH [of w'] Pair by (cases r) simp_all
  qed
qed

lemma for_each_raises_iff:
  assumes "\<And>x w. (fst (body x w) \<noteq> None) = bad x"
  shows "(fst (for_each body xs w) \<noteq> None) = list_ex bad xs"
proof (induction xs arbitrary: w)
  case Nil
  show ?case by simp
next
  case (Cons x xs)
  show ?case
  proof (cases "body x w")
    case (Pair r w')
    have "(r \<noteq> None) = bad x" using assms [of x w] Pair by simp
    then show ?thesis using Cons.IH [of w'] Pair by (cases r) auto
  qed
qed

lemma for_each_trace_if_returns:
  fixes f :: "world \<Rightarrow> 'b list"
  assumes "\<And>x w. fst (body x w) = None \<Longrightarrow> f (snd (body x w)) = f w @ g x"
    and "fst (for_each body xs w) = None"
  shows "f (snd (for_each body xs w)) = f w @ concat (map g xs)"
  using assms(2)
proof (induction xs arbitrary: w)
  case Nil
  show ?case by simp
next
  case (Cons x xs)
  show ?case
  proof (cases "body x w")
    case (Pair r w')
    with Cons.prems have r: "r = None" by (cases r) simp_all
    have "f w' = f w @ g x" using assms(1) [of x w] Pair r by simp
    moreover have "fst (for_each body xs w') = None" using Cons.prems Pair r by simp
    ultimately show ?thesis using Cons.IH [of w'] Pair r by simp
  qed
qed

subsection \<open>downloadFiles\<close>


lemma concat_map_single: "concat (map (\<lambda>x. [h x]) xs) = map h xs"
  by (induction xs) simp_all

lemma downloadFiles_body_returns: "fst (downloadFiles_body env baseURL basePath x w) = None"
  by (cases x) (simp add: downloadFiles_body_def Let_def)


lemma downloadFiles_body_requests:
  "requests (snd (downloadFiles_body env baseURL basePath x w)) =
     requests w @ (if smartDlEnabled env then [(baseURL @ snd x, os_path_join basePath [snd x])] else [])"
  by (cases x) (simp add: downloadFiles_body_def Let_def)

lemma downloadFiles_returns: "fst (downloadFiles env baseURL basePath w) = None"
  unfolding downloadFiles_def by (rule for_each_returns) (rule downloadFiles_body_returns)



subsection \<open>createFolder and downloadSlides\<close>

lemma fst_createFolder [simp]:
  "fst (createFolder env p w) = (if embedded_null p then Some ValueError else None)"
  by (simp add: createFolder_def os_makedirs_def split: option.splits)

lemma createFolder_frame [simp]:
  "files (snd (createFolder env p w)) = files w"
  "log (snd (createFolder env p w)) = log w"
  "attempts (snd (createFolder env p w)) = attempts w"
  "requests (snd (createFolder env p w)) = requests w"
  by (simp_all add: createFolder_def os_makedirs_def split: option.splits)

lemma createFolder_raises_world: "embedded_null p \<Longrightarrow> snd (createFolder env p w) = w"
  by (simp add: createFolder_def os_makedirs_def)

lemma slide_body_returns [simp]: "fst (slide_body env baseURL basePath el n i w) = None"
  by (simp add: slide_body_def Let_def)

lemma thumb_body_returns [simp]: "fst (thumb_body env baseURL basePath el i w) = None"
  by (simp add: thumb_body_def Let_def)

lemma slide_body_attempts [simp]:
  "attempts (snd (slide_body env baseURL basePath el n i w)) = attempts w @ [slide_job baseURL basePath el i]"
  by (simp add: slide_body_def slide_job_def Let_def)

lemma thumb_body_attempts [simp]:
  "attempts (snd (thumb_body env baseURL basePath el i w)) = attempts w @ [thumb_job baseURL basePath el i]"
  by (simp add: thumb_body_def thumb_job_def Let_def)

lemma slide_body_requests [simp]:
  "requests (snd (slide_body env baseURL basePath el n i w)) =
     requests w @ (if smartDlEnabled env then [slide_job baseURL basePath el i] else [])"
  by (simp add: slide_body_def slide_job_def Let_def)

lemma thumb_body_requests [simp]:
  "requests (snd (thumb_body env baseURL basePath el i w)) =
     requests w @ (if smartDlEnabled env then [thumb_job baseURL basePath el i] else [])"
  by (simp add: thumb_body_def thumb_job_def Let_def)

lemma and_then_None [simp]: "and_then (None, w) k = k w"
  by (simp add: and_then_def)

lemma and_then_Some [simp]: "and_then (Some e, w) k = (Some e, w)"
  by (simp add: and_then_def)

lemma and_then_eq: "and_then r k = (if fst r = None then k (snd r) else r)"
  by (cases r) (auto simp: and_then_def)

lemma slide_loop_returns [simp]: "fst (for_each (slide_body env baseURL basePath el n) xs w) = None"
  by (rule for_each_returns) simp

lemma thumb_loop_returns [simp]: "fst (for_each (thumb_body env baseURL basePath el) xs w) = None"
  by (rule for_each_returns) simp

lemma slide_loop_attempts [simp]:
  "attempts (snd (for_each (slide_body env baseURL basePath el n) xs w)) =
     attempts w @ map (slide_job baseURL basePath el) xs"
  using for_each_trace [of "slide_body env baseURL basePath el n" attempts
      "\<lambda>i. [slide_job baseURL basePath el i]" xs w]
  by (simp add: concat_map_single)

lemma thumb_loop_attempts [simp]:
  "attempts (snd (for_each (thumb_body env baseURL basePath el) xs w)) =
     attempts w @ map (thumb_job baseURL basePath el) xs"
  using for_each_trace [of "thumb_body env baseURL basePath el" attempts
      "\<lambda>i. [thumb_job baseURL basePath el i]" xs w]
  by (simp add: concat_map_single)

lemma concat_map_if: "concat (map (\<lambda>x. if b then [h x] else []) xs) = (if b then map h xs else [])"
  by (induction xs) simp_all

lemma slide_loop_requests [simp]:
  "requests (snd (for_each (slide_body env baseURL basePath el n) xs w)) =
     requests w @ (if smartDlEnabled env then map (slide_job baseURL basePath el) xs else [])"
  using for_each_trace [of "slide_body env baseURL basePath el n" requests
      "\<lambda>i. if smartDlEnabled env then [slide_job baseURL basePath el i] else []" xs w]
  by (simp add: concat_map_if)

lemma thumb_loop_requests [simp]:
  "requests (snd (for_each (thumb_body env baseURL basePath el) xs w)) =
     requests w @ (if smartDlEnabled env then map (thumb_job baseURL basePath el) xs else [])"
  using for_each_trace [of "thumb_body env baseURL basePath el" requests
      "\<lambda>i. if smartDlEnabled env then [thumb_job baseURL basePath el i] else []" xs w]
  by (simp add: concat_map_if)

lemma body_raises_iff:
  "(fst (downloadSlides_body env baseURL basePath data element w) \<noteq> None) =
     fatal_element basePath data element"
proof (cases "py_getitem data element")
  case (Inl e)
  then show ?thesis by (simp add: downloadSlides_body_def fatal_element_def)
next
  case (Inr v)
  show ?thesis
  proof (cases "py_len v")
    case (Inl e)
    with Inr show ?thesis by (simp add: downloadSlides_body_def fatal_element_def)
  next
    case len: (Inr n)
    show ?thesis
    proof (cases "\<exists>el. element = JString el")
      case False
      with Inr len show ?thesis
        by (cases element) (simp_all add: downloadSlides_body_def fatal_element_def)
    next
      case True
      then obtain el where el: "element = JString el" by blast
      show ?thesis using Inr len el
        by (simp add: downloadSlides_body_def fatal_element_def and_then_eq)
    qed
  qed
qed

lemma body_attempts:
  assumes "fst (downloadSlides_body env baseURL basePath data element w) = None"
  shows "attempts (snd (downloadSlides_body env baseURL basePath data element w)) =
     attempts w @ element_jobs baseURL basePath data element"
proof -
  from assms have nf: "\<not> fatal_element basePath data element"
    using body_raises_iff [of env baseURL basePath data element w] by simp
  then obtain v n el where v: "py_getitem data element = Inr v" and n: "py_len v = Inr n"
    and el: "element = JString el"
    by (auto simp: fatal_element_def split: sum.splits json.splits)
  from nf v n el have c1: "\<not> embedded_null (os_path_join basePath [''presentation'', el])"
    and c2: "\<not> embedded_null (os_path_join basePath [''presentation'', el, ''thumbnails''])"
    by (simp_all add: fatal_element_def)
  have sc: "slideCount data element = n" using v n by (simp add: slideCount_def)
  show ?thesis using v n el sc c1 c2
    by (simp add: downloadSlides_body_def element_jobs_def and_then_eq)
qed

lemma downloadSlides_load_fails:
  "load_metadata env basePath w = Inl e \<Longrightarrow> downloadSlides env baseURL basePath w = (Some e, w)"
  by (simp add: downloadSlides_def)

lemma downloadSlides_raises_iff:
  "(fst (downloadSlides env baseURL basePath w) \<noteq> None) =
     (case load_metadata env basePath w of Inl e \<Rightarrow> True | Inr data \<Rightarrow> malformed basePath data)"
proof (cases "load_metadata env basePath w")
  case (Inl e)
  then show ?thesis by (simp add: downloadSlides_def)
next
  case (Inr data)
  show ?thesis
  proof (cases "py_len data")
    case (Inl e)
    with Inr show ?thesis by (simp add: downloadSlides_def malformed_def)
  next
    case len: (Inr n)
    show ?thesis
    proof (cases "py_iter data")
      case (Inl e)
      with Inr len show ?thesis by (simp add: downloadSlides_def malformed_def)
    next
      case it: (Inr elements)
      have "(fst (for_each (downloadSlides_body env baseURL basePath data) elements w') \<noteq> None) =
          list_ex (fatal_element basePath data) elements" for w'
        by (rule for_each_raises_iff) (rule body_raises_iff)
      with Inr len it show ?thesis by (simp add: downloadSlides_def malformed_def)
    qed
  qed
qed

lemma downloadSlides_attempts:
  assumes "load_metadata env basePath w = Inr data"
    and "fst (downloadSlides env baseURL basePath w) = None"
  shows "attempts (snd (downloadSlides env baseURL basePath w)) =
     attempts w @ concat (map (element_jobs baseURL basePath data) (elements_of data))"
proof -
  from assms have nm: "\<not> malformed basePath data"
    using downloadSlides_raises_iff [of env baseURL basePath w] by simp
  then obtain n elements where len: "py_len data = Inr n" and it: "py_iter data = Inr elements"
    by (auto simp: malformed_def split: sum.splits)
  let ?w = "logger_info (''Downloading '' @ str_nat n @ '' presentations'') w"
  have eq: "downloadSlides env baseURL basePath w =
      for_each (downloadSlides_body env baseURL basePath data) elements ?w"
    using assms(1) len it by (simp add: downloadSlides_def)
  have "attempts (snd (for_each (downloadSlides_body env baseURL basePath data) elements ?w)) =
      attempts ?w @ concat (map (element_jobs baseURL basePath data) elements)"
    by (rule for_each_trace_if_returns) (use assms(2) eq body_attempts in simp_all)
  then show ?thesis using eq it by (simp add: elements_of_def)
qed

lemma not_fatal_is_string:
  "\<not> fatal_element basePath data element \<Longrightarrow> \<exists>el. element = JString el"
  by (cases element) (auto simp: fatal_element_def split: sum.splits)

lemma length_element_jobs:
  "\<not> fatal_element basePath data element \<Longrightarrow>
     length (element_jobs baseURL basePath data element) = 2 * slideCount data element"
  by (auto dest!: not_fatal_is_string simp: element_jobs_def)

lemma length_concat_element_jobs:
  "\<not> list_ex (fatal_element basePath data) xs \<Longrightarrow>
     length (concat (map (element_jobs baseURL basePath data) xs)) =
       2 * sum_list (map (slideCount data) xs)"
  by (induction xs) (simp_all add: length_element_jobs)

lemma downloadSlides_count:
  assumes "load_metadata env basePath w = Inr data"
    and "fst (downloadSlides env baseURL basePath w) = None"
  shows "length (attempts (snd (downloadSlides env baseURL basePath w))) =
     length (attempts w) + 2 * sum_list (map (slideCount data) (elements_of data))"
proof -
  from assms have nm: "\<not> malformed basePath data"
    using downloadSlides_raises_iff [of env baseURL basePath w] by simp
  then have "\<not> list_ex (fatal_element basePath data) (elements_of data)"
    by (auto simp: malformed_def elements_of_def split: sum.splits)
  then show ?thesis
    using downloadSlides_attempts [OF assms] by (simp add: length_concat_element_jobs)
qed

lemma embedded_null_join_step:
  "embedded_null (join_step p b) \<Longrightarrow> embedded_null p \<or> embedded_null b"
  by (auto simp: join_step_def embedded_null_def split: if_splits)

lemma embedded_null_join:
  "embedded_null (os_path_join a ps) \<Longrightarrow> embedded_null a \<or> list_ex embedded_null ps"
  unfolding os_path_join_def
proof (induction ps arbitrary: a)
  case Nil
  then show ?case by simp
next
  case (Cons b ps)
  from Cons.IH [of "join_step a b"] Cons.prems
  show ?case by (auto dest: embedded_null_join_step)
qed

lemma upt_1_4: "[Suc 0..<4] = [Suc 0, 2, 3]"
  by (simp add: upt_rec)

lemma join_relative:
  "os_path_join basePath [''presentation'', ''e1'', ''slide-'' @ s @ ''.png''] =
     os_path_join basePath [''presentation/e1/slide-'' @ s @ ''.png'']"
  "os_path_join basePath [''presentation'', ''e1'', ''thumbnails'', ''thumb-'' @ s @ ''.png''] =
     os_path_join basePath [''presentation/e1/thumbnails/thumb-'' @ s @ ''.png'']"
  by (simp_all add: os_path_join_def join_step_def endswith_sep_def)

lemma body_requests:
  assumes "fst (downloadSlides_body env baseURL basePath data element w) = None"
  shows "requests (snd (downloadSlides_body env baseURL basePath data element w)) =
     requests w @ (if smartDlEnabled env then element_jobs baseURL basePath data element else [])"
proof -
  from assms have nf: "\<not> fatal_element basePath data element"
    using body_raises_iff [of env baseURL basePath data element w] by simp
  then obtain v n el where v: "py_getitem data element = Inr v" and n: "py_len v = Inr n"
    and el: "element = JString el"
    by (auto simp: fatal_element_def split: sum.splits json.splits)
  from nf v n el have c1: "\<not> embedded_null (os_path_join basePath [''presentation'', el])"
    and c2: "\<not> embedded_null (os_path_join basePath [''presentation'', el, ''thumbnails''])"
    by (simp_all add: fatal_element_def)
  have sc: "slideCount data element = n" using v n by (simp add: slideCount_def)
  show ?thesis using v n el sc c1 c2
    by (simp add: downloadSlides_body_def element_jobs_def and_then_eq)
qed

lemma concat_map_if_list: "concat (map (\<lambda>x. if b then h x else []) xs) = (if b then concat (map h xs) else [])"
  by (induction xs) simp_all

lemma downloadSlides_requests:
  assumes "load_metadata env basePath w = Inr data"
    and "fst (downloadSlides env baseURL basePath w) = None"
  shows "requests (snd (downloadSlides env baseURL basePath w)) =
     requests w @ (if smartDlEnabled env
                   then concat (map (element_jobs baseURL basePath data) (elements_of data))
                   else [])"
proof -
  from assms have nm: "\<not> malformed basePath data"
    using downloadSlides_raises_iff [of env baseURL basePath w] by simp
  then obtain n elements where len: "py_len data = Inr n" and it: "py_iter data = Inr elements"
    by (auto simp: malformed_def split: sum.splits)
  let ?w = "logger_info (''Downloading '' @ str_nat n @ '' presentations'') w"
  have eq: "downloadSlides env baseURL basePath w =
      for_each (downloadSlides_body env baseURL basePath data) elements ?w"
    using assms(1) len it by (simp add: downloadSlides_def)
  have "requests (snd (for_each (downloadSlides_body env baseURL basePath data) elements ?w)) =
      requests ?w @ concat (map (\<lambda>x. if smartDlEnabled env
         then element_jobs baseURL basePath data x else []) elements)"
    by (rule for_each_trace_if_returns) (use assms(2) eq body_requests in simp_all)
  then show ?thesis using eq it by (simp add: elements_of_def concat_map_if_list)
qed

subsection \<open>What the fetch phases leave untouched; the sentinel\<close>

lemma for_each_frame_set:
  assumes "\<And>x w. x \<in> set xs \<Longrightarrow> f (snd (body x w)) = f w"
  shows "f (snd (for_each body xs w)) = f w"
  using assms
proof (induction xs arbitrary: w)
  case Nil
  show ?case by simp
next
  case (Cons x xs)
  show ?case
  proof (cases "body x w")
    case (Pair r w')
    have "f w' = f w" using Cons.prems [of x w] Pair by simp
    moreover have "f (snd (for_each body xs w')) = f w'"
      by (rule Cons.IH) (simp add: Cons.prems)
    ultimately show ?thesis using Pair by (cases r) simp_all
  qed
qed

lemma fetch_keeps:
  "(smartDlEnabled env \<Longrightarrow> p \<noteq> q) \<Longrightarrow> files (snd (fetch env warning u p w)) q = files w q"
  by (auto simp: fetch_files split: response.splits)

lemma last_join_step: "b \<noteq> [] \<Longrightarrow> last (join_step p b) = last b"
  by (simp add: join_step_def)

lemma last_os_path_join:
  "ps \<noteq> [] \<Longrightarrow> last ps \<noteq> [] \<Longrightarrow> last (os_path_join a ps) = last (last ps)"
  unfolding os_path_join_def
proof (induction ps arbitrary: a)
  case Nil
  then show ?case by simp
next
  case (Cons b ps)
  then show ?case by (cases ps) (simp_all add: last_join_step)
qed

lemma last_filesForDL: "file \<in> set filesForDL \<Longrightarrow> file \<noteq> [] \<and> last file \<noteq> CHR ''t''"
  by (auto simp: filesForDL_def)

lemma in_set_enumerate_snd: "x \<in> set (enumerate n xs) \<Longrightarrow> snd x \<in> set xs"
  by (induction xs arbitrary: n) auto

lemma downloadFiles_keeps:
  assumes "smartDlEnabled env \<Longrightarrow> last q = CHR ''t''"
  shows "files (snd (downloadFiles env baseURL basePath w)) q = files w q"
  unfolding downloadFiles_def
proof (rule for_each_frame_set [where f = "\<lambda>w. files w q"])
  fix x :: "nat \<times> string" and w'
  assume "x \<in> set (enumerate 0 filesForDL)"
  then have f: "snd x \<noteq> []" "last (snd x) \<noteq> CHR ''t''"
    using last_filesForDL [of "snd x"] by (auto dest: in_set_enumerate_snd)
  have "os_path_join basePath [snd x] \<noteq> q" if "smartDlEnabled env"
    using assms [OF that] f last_os_path_join [of "[snd x]" basePath] by auto
  then show "files (snd (downloadFiles_body env baseURL basePath x w')) q = files w' q"
    by (cases x) (simp add: downloadFiles_body_def Let_def fetch_keeps)
qed

lemma slide_body_keeps:
  assumes "smartDlEnabled env \<Longrightarrow> last q = CHR ''t''"
  shows "files (snd (slide_body env baseURL basePath el n i w)) q = files w q"
proof -
  have "os_path_join basePath [''presentation'', el, ''slide-'' @ str_nat i @ ''.png''] \<noteq> q"
    if "smartDlEnabled env"
    using assms [OF that]
      last_os_path_join [of "[''presentation'', el, ''slide-'' @ str_nat i @ ''.png'']" basePath]
    by auto
  then show ?thesis by (simp add: slide_body_def Let_def fetch_keeps)
qed

lemma thumb_body_keeps:
  assumes "smartDlEnabled env \<Longrightarrow> last q = CHR ''t''"
  shows "files (snd (thumb_body env baseURL basePath el i w)) q = files w q"
proof -
  have "os_path_join basePath
      [''presentation'', el, ''thumbnails'', ''thumb-'' @ str_nat i @ ''.png''] \<noteq> q"
    if "smartDlEnabled env"
    using assms [OF that]
      last_os_path_join [of "[''presentation'', el, ''thumbnails'', ''thumb-'' @ str_nat i @ ''.png'']" basePath]
    by auto
  then show ?thesis by (simp add: thumb_body_def Let_def fetch_keeps)
qed

lemma body_keeps:
  assumes "smartDlEnabled env \<Longrightarrow> last q = CHR ''t''"
  shows "files (snd (downloadSlides_body env baseURL basePath data element w)) q = files w q"
proof -
  have s: "files (snd (for_each (slide_body env baseURL basePath el n) xs w')) q = files w' q"
    for el n xs w'
    by (rule for_each_frame [where f = "\<lambda>w. files w q"]) (rule slide_body_keeps [OF assms])
  have t: "files (snd (for_each (thumb_body env baseURL basePath el) xs w')) q = files w' q"
    for el xs w'
    by (rule for_each_frame [where f = "\<lambda>w. files w q"]) (rule thumb_body_keeps [OF assms])
  show ?thesis
  proof (cases "py_getitem data element")
    case (Inl e)
    then show ?thesis by (simp add: downloadSlides_body_def)
  next
    case (Inr v)
    show ?thesis
    proof (cases "py_len v")
      case (Inl e)
      with Inr show ?thesis by (simp add: downloadSlides_body_def)
    next
      case len: (Inr n)
      show ?thesis
      proof (cases "\<exists>el. element = JString el")
        case False
        with Inr len show ?thesis
          by (cases element) (simp_all add: downloadSlides_body_def)
      next
        case True
        then obtain el where "element = JString el" by blast
        with Inr len show ?thesis
          by (simp add: downloadSlides_body_def and_then_eq s t)
      qed
    qed
  qed
qed

lemma downloadSlides_keeps:
  assumes "smartDlEnabled env \<Longrightarrow> last q = CHR ''t''"
  shows "files (snd (downloadSlides env baseURL basePath w)) q = files w q"
proof -
  have b: "files (snd (for_each (downloadSlides_body env baseURL basePath data) xs w')) q = files w' q"
    for data xs w'
    by (rule for_each_frame [where f = "\<lambda>w. files w q"]) (rule body_keeps [OF assms])
  show ?thesis
    by (simp add: downloadSlides_def b split: sum.splits)
qed

lemma last_sentinel_path: "last (sentinel_path folderPath) = CHR ''t''"
  using last_os_path_join [of "[DOWNLOADED_FULLY_FILENAME]" folderPath]
  by (simp add: sentinel_path_def DOWNLOADED_FULLY_FILENAME_def)

lemma after_phases_sentinel:
  "files (after_phases env baseURL folderPath w) (sentinel_path folderPath) =
     files w (sentinel_path folderPath)"
  by (simp add: after_phases_def downloadSlides_keeps downloadFiles_keeps last_sentinel_path)

lemma download_and_mark_eq:
  "download_and_mark env baseURL folderPath w =
     (if fst (downloadSlides env baseURL folderPath (snd (downloadFiles env baseURL folderPath w)))
           \<noteq> None
      then downloadSlides env baseURL folderPath (snd (downloadFiles env baseURL folderPath w))
      else if fst (copy_tree env (os_path_join (SCRIPT_DIR env) [''player23'']) folderPath
                     (after_phases env baseURL folderPath w)) \<noteq> None
      then copy_tree env (os_path_join (SCRIPT_DIR env) [''player23'']) folderPath
             (after_phases env baseURL folderPath w)
      else open_w env (sentinel_path folderPath)
             (snd (copy_tree env (os_path_join (SCRIPT_DIR env) [''player23'']) folderPath
                     (after_phases env baseURL folderPath w))))"
  by (simp add: download_and_mark_def and_then_eq downloadFiles_returns after_phases_def
      sentinel_path_def)

lemma copy_tree_raises: "fst (copy_tree env src dst w) \<noteq> None \<Longrightarrow> snd (copy_tree env src dst w) = w"
  by (auto simp: copy_tree_def split: option.splits)

lemma fst_open_w [simp]: "fst (open_w env p w) = open_w_raises env p"
  by (simp add: open_w_def split: option.splits)

lemma files_open_w:
  "files (snd (open_w env p w)) p = (if open_w_raises env p = None then Some [] else files w p)"
  by (simp add: open_w_def split: option.splits)

lemma download_and_mark_sentinel:
  "(fst (download_and_mark env baseURL folderPath w) = None)
       = (fst (downloadSlides env baseURL folderPath
                 (snd (downloadFiles env baseURL folderPath w))) = None
          \<and> fst (copy_tree env (os_path_join (SCRIPT_DIR env) [''player23'']) folderPath
                   (after_phases env baseURL folderPath w)) = None
          \<and> open_w_raises env (sentinel_path folderPath) = None)"
  "fst (download_and_mark env baseURL folderPath w) = None \<Longrightarrow>
     files (snd (download_and_mark env baseURL folderPath w)) (sentinel_path folderPath) = Some []"
  "fst (downloadSlides env baseURL folderPath
          (snd (downloadFiles env baseURL folderPath w))) \<noteq> None
   \<or> fst (copy_tree env (os_path_join (SCRIPT_DIR env) [''player23'']) folderPath
            (after_phases env baseURL folderPath w)) \<noteq> None \<Longrightarrow>
     files (snd (download_and_mark env baseURL folderPath w)) (sentinel_path folderPath) =
       files w (sentinel_path folderPath)"
proof -
  let ?ds = "downloadSlides env baseURL folderPath (snd (downloadFiles env baseURL folderPath w))"
  let ?ct = "copy_tree env (os_path_join (SCRIPT_DIR env) [''player23'']) folderPath
                   (after_phases env baseURL folderPath w)"
  have a: "files (snd ?ds) (sentinel_path folderPath) = files w (sentinel_path folderPath)"
    using after_phases_sentinel [of env baseURL folderPath w] by (simp add: after_phases_def)
  have c: "files (snd ?ct) (sentinel_path folderPath) = files w (sentinel_path folderPath)"
    if "fst ?ct \<noteq> None"
    using copy_tree_raises [OF that] a by (simp add: after_phases_def)
  show "(fst (download_and_mark env baseURL folderPath w) = None)
       = (fst ?ds = None \<and> fst ?ct = None \<and> open_w_raises env (sentinel_path folderPath) = None)"
    unfolding download_and_mark_eq by auto
  show "files (snd (download_and_mark env baseURL folderPath w)) (sentinel_path folderPath) = Some []"
    if "fst (download_and_mark env baseURL folderPath w) = None"
    using that unfolding download_and_mark_eq
    by (auto simp: files_open_w split: if_splits)
  show "files (snd (download_and_mark env baseURL folderPath w)) (sentinel_path folderPath) =
       files w (sentinel_path folderPath)"
    if "fst ?ds \<noteq> None \<or> fst ?ct \<noteq> None"
    using that a c unfolding download_and_mark_eq by auto
qed

subsection \<open>Without the accelerated backend\<close>

lemma load_metadata_files:
  "files w' = files w \<Longrightarrow> load_metadata env basePath w' = load_metadata env basePath w"
  by (simp add: load_metadata_def Let_def)

lemma try_fetch_no_backend:
  "\<not> smartDlEnabled env \<Longrightarrow> try_fetch env u p w = (Some (NameError ''bar''), w)"
  by (simp add: try_fetch_def)

lemma fetch_no_backend:
  "\<not> smartDlEnabled env \<Longrightarrow>
     fetch env warning u p w =
       (None, logger_exception [] (NameError ''bar'') (w\<lparr>attempts := attempts w @ [(u, p)]\<rparr>))"
  by (simp add: fetch_def try_fetch_def except_fetch_def)

lemma downloadFiles_files_no_backend:
  assumes "\<not> smartDlEnabled env"
  shows "files (snd (downloadFiles env baseURL basePath w)) = files w"
proof (rule ext)
  fix q
  show "files (snd (downloadFiles env baseURL basePath w)) q = files w q"
    by (rule downloadFiles_keeps) (use assms in simp)
qed

lemma downloadSlides_files_no_backend:
  assumes "\<not> smartDlEnabled env"
  shows "files (snd (downloadSlides env baseURL basePath w)) = files w"
proof (rule ext)
  fix q
  show "files (snd (downloadSlides env baseURL basePath w)) q = files w q"
    by (rule downloadSlides_keeps) (use assms in simp)
qed

lemma downloadFiles_requests_no_backend:
  "\<not> smartDlEnabled env \<Longrightarrow> requests (snd (downloadFiles env baseURL basePath w)) = requests w"
  unfolding downloadFiles_def
  by (rule for_each_frame) (simp add: downloadFiles_body_requests)

lemma body_requests_no_backend:
  assumes "\<not> smartDlEnabled env"
  shows "requests (snd (downloadSlides_body env baseURL basePath data element w)) = requests w"
proof (cases "py_getitem data element")
  case (Inl e)
  then show ?thesis by (simp add: downloadSlides_body_def)
next
  case (Inr v)
  show ?thesis
  proof (cases "py_len v")
    case (Inl e)
    with Inr show ?thesis by (simp add: downloadSlides_body_def)
  next
    case len: (Inr n)
    show ?thesis
    proof (cases "\<exists>el. element = JString el")
      case False
      with Inr len show ?thesis
        by (cases element) (simp_all add: downloadSlides_body_def)
    next
      case True
      then obtain el where "element = JString el" by blast
      with Inr len assms show ?thesis
        by (simp add: downloadSlides_body_def and_then_eq)
    qed
  qed
qed

lemma downloadSlides_requests_no_backend:
  assumes "\<not> smartDlEnabled env"
  shows "requests (snd (downloadSlides env baseURL basePath w)) = requests w"
proof -
  have b: "requests (snd (for_each (downloadSlides_body env baseURL basePath data) xs w')) = requests w'"
    for data xs w'
    by (rule for_each_frame) (rule body_requests_no_backend [OF assms])
  show ?thesis
    by (simp add: downloadSlides_def b split: sum.splits)
qed

lemma download_and_mark_no_backend:
  assumes "\<not> smartDlEnabled env"
  shows "(fst (download_and_mark env baseURL folderPath w) = None) =
     (case load_metadata env folderPath w of
        Inl e \<Rightarrow> False
      | Inr data \<Rightarrow>
          \<not> malformed folderPath data
          \<and> fst (copy_tree env (os_path_join (SCRIPT_DIR env) [''player23'']) folderPath
                   (after_phases env baseURL folderPath w)) = None
          \<and> open_w_raises env (sentinel_path folderPath) = None)"
    and "load_metadata env folderPath w = Inl e \<Longrightarrow>
      fst (download_and_mark env baseURL folderPath w) = Some e
      \<and> files (snd (download_and_mark env baseURL folderPath w)) = files w"
proof -
  let ?w1 = "snd (downloadFiles env baseURL folderPath w)"
  have l: "load_metadata env folderPath ?w1 = load_metadata env folderPath w"
    by (rule load_metadata_files) (rule downloadFiles_files_no_backend [OF assms])
  have r: "(fst (downloadSlides env baseURL folderPath ?w1) = None) =
      (case load_metadata env folderPath w of Inl e \<Rightarrow> False | Inr data \<Rightarrow> \<not> malformed folderPath data)"
    using downloadSlides_raises_iff [of env baseURL folderPath ?w1] l
    by (auto split: sum.splits)
  show "(fst (download_and_mark env baseURL folderPath w) = None) =
     (case load_metadata env folderPath w of
        Inl e \<Rightarrow> False
      | Inr data \<Rightarrow>
          \<not> malformed folderPath data
          \<and> fst (copy_tree env (os_path_join (SCRIPT_DIR env) [''player23'']) folderPath
                   (after_phases env baseURL folderPath w)) = None
          \<and> open_w_raises env (sentinel_path folderPath) = None)"
    unfolding download_and_mark_sentinel(1) r by (auto split: sum.splits)
  show "fst (download_and_mark env baseURL folderPath w) = Some e
      \<and> files (snd (download_and_mark env baseURL folderPath w)) = files w"
    if "load_metadata env folderPath w = Inl e"
  proof -
    have "downloadSlides env baseURL folderPath ?w1 = (Some e, ?w1)"
      using that l by (simp add: downloadSlides_load_fails)
    then show ?thesis
      unfolding download_and_mark_eq by (simp add: downloadFiles_files_no_backend [OF assms])
  qed
qed

subsection \<open>The log of downloadFiles; an example run\<close>

lemma downloadFiles_body_log:
  "log (snd (downloadFiles_body env baseURL basePath x w)) =
     log w @ (progress_record x
       # fetch_records env (''Did not download '' @ snd x @ '' because of 404 error'')
           (baseURL @ snd x) (os_path_join basePath [snd x]))"
  by (cases x) (simp add: downloadFiles_body_def progress_record_def Let_def)

lemma downloadFiles_log:
  "log (snd (downloadFiles env baseURL basePath w)) =
     log w @ concat (map (\<lambda>x. progress_record x
       # fetch_records env (''Did not download '' @ snd x @ '' because of 404 error'')
           (baseURL @ snd x) (os_path_join basePath [snd x])) (enumerate 0 filesForDL))"
  unfolding downloadFiles_def
  by (rule for_each_trace) (simp_all add: downloadFiles_body_returns downloadFiles_body_log)

lemma example_files_after_downloadFiles:
  "files (snd (downloadFiles (example_env True example_answers parser player)
        ''https://h/'' ''/m'' empty_world)) ''/m/presentation_text.json'' = Some ''doc''"
  by (simp add: downloadFiles_def filesForDL_def downloadFiles_body_def fetch_def try_fetch_def
      except_fetch_def example_env_def example_answers_def empty_world_def os_path_join_def
      join_step_def endswith_sep_def Let_def)

lemma example_load:
  "load_metadata (example_env True example_answers (\<lambda>b. Some (JObject [])) player) ''/m''
     (snd (downloadFiles (example_env True example_answers (\<lambda>b. Some (JObject [])) player)
        ''https://h/'' ''/m'' empty_world)) = Inr (JObject [])"
  using example_files_after_downloadFiles [of "\<lambda>b. Some (JObject [])" player]
  by (simp add: load_metadata_def embedded_null_def example_env_def)

lemma example_phases:
  "fst (downloadSlides (example_env True example_answers (\<lambda>b. Some (JObject [])) player)
     ''https://h/'' ''/m''
     (snd (downloadFiles (example_env True example_answers (\<lambda>b. Some (JObject [])) player)
        ''https://h/'' ''/m'' empty_world))) = None"
  using downloadSlides_raises_iff [of "example_env True example_answers (\<lambda>b. Some (JObject [])) player"
      "''https://h/''" "''/m''"
      "snd (downloadFiles (example_env True example_answers (\<lambda>b. Some (JObject [])) player)
        ''https://h/'' ''/m'' empty_world)"]
  by (simp add: example_load malformed_def)

lemma example_copy:
  "fst (copy_tree (example_env backend answers parser player) src dst w)
     = (if player then None else Some DistutilsFileError)"
  by (simp add: copy_tree_def example_env_def)

lemma example_open: "open_w_raises (example_env backend answers parser player) p = None"
  by (simp add: example_env_def)

subsection \<open>The metadata file between the two phases\<close>








subsection \<open>The pattern and downloadScript\<close>

lemma id_here_shape: "id_here s = Some g \<Longrightarrow> is_session_id g"
  by (auto simp: id_here_def is_session_id_def Let_def nth_append split: if_splits)

lemma lazy_any_then_id_shape: "lazy_any_then_id s = Some g \<Longrightarrow> is_session_id g"
proof (induction s)
  case Nil
  then show ?case by (simp add: id_here_shape)
next
  case (Cons c cs)
  then show ?case by (auto simp: id_here_shape split: option.splits if_splits)
qed

lemma match_here_shape: "match_here s = Some (v, g) \<Longrightarrow> is_session_id g"
  by (auto simp: match_here_def dest: lazy_any_then_id_shape split: option.splits prod.splits)

lemma re_search_shape: "re_search s = Some (v, g) \<Longrightarrow> is_session_id g"
proof (induction s)
  case Nil
  then show ?case by (simp add: match_here_shape)
next
  case (Cons c cs)
  then show ?case by (auto dest: match_here_shape split: option.splits)
qed

lemma session_id_relative: "is_session_id g \<Longrightarrow> g \<noteq> [] \<and> \<not> startswith_sep g"
  by (cases g) (auto simp: is_session_id_def is_hex_def)

lemma meetings_root:
  "downloadedMeetingsFolderPath d \<noteq> [] \<and> \<not> endswith_sep (downloadedMeetingsFolderPath d)"
  by (simp add: downloadedMeetingsFolderPath_def os_path_join_def join_step_def endswith_sep_def
      DOWNLOADED_MEETINGS_FOLDER_def)

lemma folderPath_of_eq:
  "folderPath_of env name meetingId =
     join_step (downloadedMeetingsFolderPath (SCRIPT_DIR env)) (if name \<noteq> [] then name else meetingId)"
  by (simp add: folderPath_of_def downloadedMeetingsFolderPath_def os_path_join_def)

lemma folderPath_of_cases:
  assumes "is_session_id meetingId"
  shows "folderPath_of env name meetingId =
     (if name = [] then downloadedMeetingsFolderPath (SCRIPT_DIR env) @ ''/'' @ meetingId
      else if startswith_sep name then name
      else downloadedMeetingsFolderPath (SCRIPT_DIR env) @ ''/'' @ name)"
  using session_id_relative [OF assms] meetings_root [of "SCRIPT_DIR env"]
  by (simp add: folderPath_of_eq join_step_def)

lemma downloadScript_no_match:
  "re_search inputURL = None \<Longrightarrow>
     downloadScript env inputURL name w =
       (Some (SystemExit 1), logger_error ''Meeting ID could not be found in the url.'' w)"
  by (simp add: downloadScript_def)

lemma downloadScript_match:
  "re_search inputURL = Some (bbbVersion, meetingId) \<Longrightarrow>
   urlparse env inputURL = Some (scheme, netloc) \<Longrightarrow>
     downloadScript env inputURL name w =
       download_session env (baseURL_of scheme netloc meetingId) (folderPath_of env name meetingId)
         (logger_info (''Detected meeting id:'' @ [CHR 0x09] @ meetingId)
            (logger_info (''Detected bbb version:'' @ [CHR 0x09] @ bbbVersion) w))"
  by (simp add: downloadScript_def Let_def)

lemma download_session_done:
  "os_path_isfile w (sentinel_path folderPath) \<Longrightarrow>
     download_session env baseURL folderPath w =
       (None, logger_info ''Meeting is already downloaded.'' w)"
  by (simp add: download_session_def sentinel_path_def)

lemma os_path_isfile_logger [simp]:
  "os_path_isfile (logger_info m w) p = os_path_isfile w p"
  by (simp add: os_path_isfile_def)

lemma example_url_match:
  "re_search ''https://bbb.example/playback/presentation/2.3/0123456789abcdef0123456789ABCDEF01234567-1234567890123/''
     = Some (''2.3'', ''0123456789abcdef0123456789ABCDEF01234567-1234567890123'')"
  by (simp add: match_here_def version_here_def id_here_def is_digit_def is_hex_def)

subsection \<open>hello\<close>

lemma hello_cong:
  assumes l: "listdir fs' (downloadedMeetingsFolderPath script_dir)
              = listdir fs (downloadedMeetingsFolderPath script_dir)"
    and d: "\<And>names m. listdir fs (downloadedMeetingsFolderPath script_dir) = Some names \<Longrightarrow>
              m \<in> set names \<Longrightarrow>
              isdir fs' (os_path_join (downloadedMeetingsFolderPath script_dir) [m])
              = isdir fs (os_path_join (downloadedMeetingsFolderPath script_dir) [m])"
    and f: "\<And>names m. listdir fs (downloadedMeetingsFolderPath script_dir) = Some names \<Longrightarrow>
              m \<in> set names \<Longrightarrow>
              meetingLink script_dir fs' m = meetingLink script_dir fs m"
  shows "hello script_dir fs' message = hello script_dir fs message"
proof (cases "listdir fs (downloadedMeetingsFolderPath script_dir)")
  case None
  with l show ?thesis by (simp add: hello_def)
next
  case (Some names)
  let ?root = "downloadedMeetingsFolderPath script_dir"
  have flt: "filter (\<lambda>folder. isdir fs' (os_path_join ?root [folder])) names
      = filter (\<lambda>folder. isdir fs (os_path_join ?root [folder])) names"
    by (rule filter_cong [OF refl]) (rule d [OF Some])
  let ?folders = "sort (filter (\<lambda>folder. isdir fs (os_path_join ?root [folder])) names)"
  have "map (meetingLink script_dir fs') ?folders = map (meetingLink script_dir fs) ?folders"
    by (rule map_cong [OF refl]) (rule f [OF Some], simp)
  with Some l flt show ?thesis by (simp add: hello_def Let_def)
qed

lemma meetingLink_sentinel:
  "meetingLink script_dir
     (fs\<lparr>isfile := (isfile fs)
        (sentinel_path (os_path_join (downloadedMeetingsFolderPath script_dir) [d]) := b)\<rparr>) m
   = meetingLink script_dir fs m"
proof -
  let ?root = "downloadedMeetingsFolderPath script_dir"
  have 1: "os_path_join ?root [m, ''index.html''] \<noteq> sentinel_path (os_path_join ?root [d])"
    using last_os_path_join [of "[m, ''index.html'']" ?root] last_sentinel_path [of "os_path_join ?root [d]"]
    by auto
  have 2: "os_path_join ?root [m, ''asset-manifest.json''] \<noteq> sentinel_path (os_path_join ?root [d])"
    using last_os_path_join [of "[m, ''asset-manifest.json'']" ?root]
      last_sentinel_path [of "os_path_join ?root [d]"]
    by auto
  show ?thesis using 1 2 by (simp add: meetingLink_def)
qed

lemma hello_sentinel:
  "hello script_dir
     (fs\<lparr>isfile := (isfile fs)
        (sentinel_path (os_path_join (downloadedMeetingsFolderPath script_dir) [d]) := b)\<rparr>) message
   = hello script_dir fs message"
  by (rule hello_cong) (simp_all add: meetingLink_sentinel)

lemma hello_sorted:
  assumes "fst (hello script_dir fs message) = Inr (links, msg)"
  shows "sorted (map snd links) \<and> msg = message"
proof (cases "listdir fs (downloadedMeetingsFolderPath script_dir)")
  case None
  with assms show ?thesis by (simp add: hello_def)
next
  case (Some names)
  have "map snd (map (meetingLink script_dir fs) xs) = xs" for xs
    by (induction xs) (simp_all add: meetingLink_def)
  with Some assms show ?thesis by (auto simp: hello_def Let_def)
qed

lemma hello_names:
  assumes "listdir fs (downloadedMeetingsFolderPath script_dir) = Some names"
  shows "fst (hello script_dir fs message) =
     Inr (map (meetingLink script_dir fs)
            (sort (filter (\<lambda>folder. isdir fs
               (os_path_join (downloadedMeetingsFolderPath script_dir) [folder])) names)), message)"
  using assms by (simp add: hello_def Let_def)

lemma example_root: "downloadedMeetingsFolderPath ''/srv'' = ''/srv/downloadedMeetings''"
  by (simp add: downloadedMeetingsFolderPath_def os_path_join_def join_step_def
      endswith_sep_def DOWNLOADED_MEETINGS_FOLDER_def)

lemma example_hello:
  "hello ''/srv'' (example_fs player marked) ''msg'' =
     (Inr ([(if player then ''/downloadedMeetings/m1/index.html''
             else ''/downloadedMeetings/m1/player/playback.html'', ''m1''),
            (''/downloadedMeetings/m2/player/playback.html'', ''m2'')], ''msg''), [])"
  by (simp add: hello_def example_root example_fs_def meetingLink_def os_path_join_def
      join_step_def endswith_sep_def DOWNLOADED_MEETINGS_FOLDER_def Let_def)

section \<open>The claims\<close>

text \<open>
  C1, as amended. The manifest phase always returns normally. Lines 298-308 return normally
  exactly when the expansion phase returns normally, the copy of the player (line 302)
  succeeds and the sentinel can be opened for writing (line 304); then the sentinel exists
  and is empty. The answers of the backend for individual files enter only through the
  expansion phase's own condition (C5). When the expansion phase or the copy of the player
  raises, the sentinel is left as it was before the run: a fatal error prevents its writing.
\<close>

theorem sentinel_written_iff:
  "fst (downloadFiles env baseURL folderPath w) = None
   \<and> (fst (download_and_mark env baseURL folderPath w) = None)
       = (fst (downloadSlides env baseURL folderPath
                 (snd (downloadFiles env baseURL folderPath w))) = None
          \<and> fst (copy_tree env (os_path_join (SCRIPT_DIR env) [''player23'']) folderPath
                   (after_phases env baseURL folderPath w)) = None
          \<and> open_w_raises env (sentinel_path folderPath) = None)
   \<and> (fst (download_and_mark env baseURL folderPath w) = None \<longrightarrow>
        files (snd (download_and_mark env baseURL folderPath w)) (sentinel_path folderPath)
          = Some [])
   \<and> (fst (downloadSlides env baseURL folderPath
               (snd (downloadFiles env baseURL folderPath w))) \<noteq> None
        \<or> fst (copy_tree env (os_path_join (SCRIPT_DIR env) [''player23'']) folderPath
                 (after_phases env baseURL folderPath w)) \<noteq> None \<longrightarrow>
        files (snd (download_and_mark env baseURL folderPath w)) (sentinel_path folderPath)
          = files w (sentinel_path folderPath))"
  using download_and_mark_sentinel [of env baseURL folderPath w]
    downloadFiles_returns [of env baseURL folderPath w]
  by blast

theorem sentinel_written_iff_witness:
  "fst (download_and_mark (example_env True example_answers (\<lambda>b. Some (JObject [])) True)
          ''https://h/'' ''/m'' empty_world) = None
   \<and> files (snd (download_and_mark (example_env True example_answers (\<lambda>b. Some (JObject [])) True)
          ''https://h/'' ''/m'' empty_world)) (sentinel_path ''/m'') = Some []"
  using sentinel_written_iff [of "example_env True example_answers (\<lambda>b. Some (JObject [])) True"
      "''https://h/''" "''/m''" empty_world]
  by (simp add: example_phases example_copy example_open)

text \<open>
  C1 as stated fails: both phases return normally, the copy of the player raises
  \<^verbatim>\<open>DistutilsFileError\<close> (the directory \<^verbatim>\<open>player23\<close> is missing), and the sentinel is
  not written.
\<close>

theorem sentinel_written_counterexample:
  "fst (downloadFiles (example_env True example_answers (\<lambda>b. Some (JObject [])) False)
          ''https://h/'' ''/m'' empty_world) = None
   \<and> fst (downloadSlides (example_env True example_answers (\<lambda>b. Some (JObject [])) False)
          ''https://h/'' ''/m''
          (snd (downloadFiles (example_env True example_answers (\<lambda>b. Some (JObject [])) False)
             ''https://h/'' ''/m'' empty_world))) = None
   \<and> fst (download_and_mark (example_env True example_answers (\<lambda>b. Some (JObject [])) False)
          ''https://h/'' ''/m'' empty_world) = Some DistutilsFileError
   \<and> files (snd (download_and_mark (example_env True example_answers (\<lambda>b. Some (JObject [])) False)
          ''https://h/'' ''/m'' empty_world)) (sentinel_path ''/m'') = None"
proof -
  let ?E = "example_env True example_answers (\<lambda>b. Some (JObject [])) False"
  have c: "fst (copy_tree ?E src dst w) = Some DistutilsFileError" for src dst w
    by (simp add: example_copy)
  have "files (snd (download_and_mark ?E ''https://h/'' ''/m'' empty_world)) (sentinel_path ''/m'')
      = files empty_world (sentinel_path ''/m'')"
    by (rule download_and_mark_sentinel(3)) (simp add: c)
  moreover have "files empty_world (sentinel_path ''/m'') = None"
    by (simp add: empty_world_def)
  moreover have "fst (download_and_mark ?E ''https://h/'' ''/m'' empty_world)
      = Some DistutilsFileError"
    by (simp add: download_and_mark_eq example_phases c)
  ultimately show ?thesis
    by (simp add: downloadFiles_returns example_phases)
qed




text \<open>
  C3. The claim holds for a 404 answer (a WARNING record, nothing raised) and for an
  exception that is not an \<^verbatim>\<open>HTTPError\<close> (an ERROR record with the traceback, nothing
  raised), as the last two lines below show. It fails in the code for an
  \<^verbatim>\<open>HTTPError\<close> whose code is not 404: the first \<^verbatim>\<open>except\<close> clause catches it,
  \<^verbatim>\<open>if e.code == 404\<close> has no \<^verbatim>\<open>else\<close>, and nothing is logged. With a server that
  answers 500 to everything, one fetch leaves no record, and the whole manifest loop
  leaves the thirteen progress records and nothing else.
\<close>

theorem non404_http_error_not_logged:
  "log (snd (fetch (example_env True (\<lambda>u p. HTTP_error 500) (\<lambda>b. None) True)
          ''Did not download captions.json because of 404 error''
          ''https://h/captions.json'' ''/m/captions.json'' empty_world)) = []
   \<and> log (snd (downloadFiles (example_env True (\<lambda>u p. HTTP_error 500) (\<lambda>b. None) True)
          ''https://h/'' ''/m'' empty_world)) = map progress_record (enumerate 0 filesForDL)
   \<and> log (snd (fetch (example_env True (\<lambda>u p. HTTP_error 404) (\<lambda>b. None) True)
          ''Did not download captions.json because of 404 error''
          ''https://h/captions.json'' ''/m/captions.json'' empty_world)) =
       [LogRecord WARNING ''Did not download captions.json because of 404 error'' None]
   \<and> log (snd (fetch (example_env True (\<lambda>u p. Transport_error) (\<lambda>b. None) True)
          ''Did not download captions.json because of 404 error''
          ''https://h/captions.json'' ''/m/captions.json'' empty_world)) =
       [LogRecord ERROR [] (Some TransportError)]"
proof -
  have e: "smartDlEnabled (example_env True t p c)" "transport (example_env True t p c) = t"
    for t p c by (simp_all add: example_env_def)
  have r: "fetch_records (example_env True (\<lambda>u p. HTTP_error 500) (\<lambda>b. None) True) m u p = []"
    for m u p by (simp add: fetch_records_def e)
  have "concat (map (\<lambda>x. [progress_record x]) xs) = map progress_record xs" for xs
    by (rule concat_map_single)
  then show ?thesis
    by (simp add: downloadFiles_log r e fetch_records_def empty_world_def)
qed

text \<open>
  C4. Let the metadata file parse to \<open>data\<close>. When \<open>data\<close> is the document
  \<^verbatim>\<open>{"e1": [t1, t2, t3]}\<close> (and the local directory is a path without a null character),
  the expander returns normally and enters the \<^verbatim>\<open>try\<close> block for exactly six fetches:
  \<^verbatim>\<open>presentation/e1/slide-1.png\<close> to \<^verbatim>\<open>slide-3.png\<close>, then
  \<^verbatim>\<open>presentation/e1/thumbnails/thumb-1.png\<close> to \<^verbatim>\<open>thumb-3.png\<close>, each under the
  base URL and under the local directory, in that order; with the accelerated backend these
  six are the requests made. In general, when the expander returns normally, the number of
  fetch attempts is twice the sum of the slide counts of all elements.
\<close>

theorem expander_fetches:
  assumes "load_metadata env basePath w = Inr data"
  shows "(data = JObject [(''e1'', JArray [t1, t2, t3])] \<and> \<not> embedded_null basePath \<longrightarrow>
            fst (downloadSlides env baseURL basePath w) = None
          \<and> attempts (snd (downloadSlides env baseURL basePath w)) =
              attempts w @ map (\<lambda>rel. (baseURL @ rel, os_path_join basePath [rel]))
                [''presentation/e1/slide-1.png'', ''presentation/e1/slide-2.png'',
                 ''presentation/e1/slide-3.png'', ''presentation/e1/thumbnails/thumb-1.png'',
                 ''presentation/e1/thumbnails/thumb-2.png'',
                 ''presentation/e1/thumbnails/thumb-3.png'']
          \<and> requests (snd (downloadSlides env baseURL basePath w)) =
              requests w @ (if smartDlEnabled env
                then map (\<lambda>rel. (baseURL @ rel, os_path_join basePath [rel]))
                  [''presentation/e1/slide-1.png'', ''presentation/e1/slide-2.png'',
                   ''presentation/e1/slide-3.png'', ''presentation/e1/thumbnails/thumb-1.png'',
                   ''presentation/e1/thumbnails/thumb-2.png'',
                   ''presentation/e1/thumbnails/thumb-3.png'']
                else []))
       \<and> (fst (downloadSlides env baseURL basePath w) = None \<longrightarrow>
            length (attempts (snd (downloadSlides env baseURL basePath w))) =
              length (attempts w) + 2 * sum_list (map (slideCount data) (elements_of data)))"
proof -
  let ?jobs = "map (\<lambda>rel. (baseURL @ rel, os_path_join basePath [rel]))
        [''presentation/e1/slide-1.png'', ''presentation/e1/slide-2.png'',
         ''presentation/e1/slide-3.png'', ''presentation/e1/thumbnails/thumb-1.png'',
         ''presentation/e1/thumbnails/thumb-2.png'',
         ''presentation/e1/thumbnails/thumb-3.png'']"
  have general: "length (attempts (snd (downloadSlides env baseURL basePath w))) =
      length (attempts w) + 2 * sum_list (map (slideCount data) (elements_of data))"
    if "fst (downloadSlides env baseURL basePath w) = None"
    using assms that by (rule downloadSlides_count)
  have example: "fst (downloadSlides env baseURL basePath w) = None
      \<and> attempts (snd (downloadSlides env baseURL basePath w)) = attempts w @ ?jobs
      \<and> requests (snd (downloadSlides env baseURL basePath w)) =
          requests w @ (if smartDlEnabled env then ?jobs else [])"
    if ex: "data = JObject [(''e1'', JArray [t1, t2, t3])] \<and> \<not> embedded_null basePath"
  proof -
    have n1: "\<not> embedded_null (os_path_join basePath [''presentation'', ''e1''])"
    proof
      assume "embedded_null (os_path_join basePath [''presentation'', ''e1''])"
      from embedded_null_join [OF this] ex show False by (simp add: embedded_null_def)
    qed
    have n2: "\<not> embedded_null (os_path_join basePath [''presentation'', ''e1'', ''thumbnails''])"
    proof
      assume "embedded_null (os_path_join basePath [''presentation'', ''e1'', ''thumbnails''])"
      from embedded_null_join [OF this] ex show False by (simp add: embedded_null_def)
    qed
    have nm: "\<not> malformed basePath data"
      using ex n1 n2 by (simp add: malformed_def fatal_element_def)
    have ok: "fst (downloadSlides env baseURL basePath w) = None"
      using downloadSlides_raises_iff [of env baseURL basePath w] assms nm by simp
    have sc: "slideCount data (JString ''e1'') = 3"
      using ex by (simp add: slideCount_def)
    have jobs: "concat (map (element_jobs baseURL basePath data) (elements_of data)) = ?jobs"
      using ex sc join_relative [of basePath "''1''"] join_relative [of basePath "''2''"]
        join_relative [of basePath "''3''"]
      by (simp add: elements_of_def element_jobs_def upt_1_4 slide_job_def thumb_job_def
          digit_char_def str_nat.simps)
    show ?thesis
      using ok downloadSlides_attempts [OF assms ok] downloadSlides_requests [OF assms ok]
      unfolding jobs by simp
  qed
  from general example show ?thesis by blast
qed

theorem expander_fetches_witness:
  "load_metadata (example_env True (\<lambda>u p. HTTP_error 404)
       (\<lambda>b. Some (JObject [(''e1'', JArray [JNull, JNull, JNull])])) True) ''/m''
     (empty_world\<lparr>files := [''/m/presentation_text.json'' \<mapsto> ''doc'']\<rparr>)
     = Inr (JObject [(''e1'', JArray [JNull, JNull, JNull])])
   \<and> fst (downloadSlides (example_env True (\<lambda>u p. HTTP_error 404)
       (\<lambda>b. Some (JObject [(''e1'', JArray [JNull, JNull, JNull])])) True) ''https://h/'' ''/m''
     (empty_world\<lparr>files := [''/m/presentation_text.json'' \<mapsto> ''doc'']\<rparr>)) = None
   \<and> length (requests (snd (downloadSlides (example_env True (\<lambda>u p. HTTP_error 404)
       (\<lambda>b. Some (JObject [(''e1'', JArray [JNull, JNull, JNull])])) True) ''https://h/'' ''/m''
     (empty_world\<lparr>files := [''/m/presentation_text.json'' \<mapsto> ''doc'']\<rparr>)))) = 6
   \<and> length (attempts (snd (downloadSlides (example_env True (\<lambda>u p. HTTP_error 404)
       (\<lambda>b. Some (JObject [(''e1'', JArray [JNull, JNull, JNull])])) True) ''https://h/'' ''/m''
     (empty_world\<lparr>files := [''/m/presentation_text.json'' \<mapsto> ''doc'']\<rparr>)))) =
     2 * sum_list (map (slideCount (JObject [(''e1'', JArray [JNull, JNull, JNull])]))
                    (elements_of (JObject [(''e1'', JArray [JNull, JNull, JNull])])))"
proof -
  let ?env = "example_env True (\<lambda>u p. HTTP_error 404)
       (\<lambda>b. Some (JObject [(''e1'', JArray [JNull, JNull, JNull])])) True"
  let ?w = "empty_world\<lparr>files := [''/m/presentation_text.json'' \<mapsto> ''doc'']\<rparr>"
  have l: "load_metadata ?env ''/m'' ?w = Inr (JObject [(''e1'', JArray [JNull, JNull, JNull])])"
    by (simp add: load_metadata_def embedded_null_def example_env_def empty_world_def)
  have n: "\<not> embedded_null ''/m''" by (simp add: embedded_null_def)
  have e: "smartDlEnabled ?env" by (simp add: example_env_def)
  have a: "attempts ?w = []" "requests ?w = []" by (simp_all add: empty_world_def)
  show ?thesis
    using expander_fetches [OF l, of JNull JNull JNull "''https://h/''"] l n e a
    by (simp add: slideCount_def elements_of_def)
qed




text \<open>
  C6. When the URL matches and the folder of the session already holds the sentinel,
  \<^verbatim>\<open>downloadScript\<close> makes no request, attempts no fetch and changes neither the
  files nor the directories; it returns normally (provided \<^verbatim>\<open>urlparse\<close> accepts the
  URL). Only a log record is added.
\<close>

theorem already_downloaded_short_circuit:
  assumes "re_search inputURL = Some (bbbVersion, meetingId)"
    and "os_path_isfile w (sentinel_path (folderPath_of env name meetingId))"
  shows "requests (snd (downloadScript env inputURL name w)) = requests w
   \<and> attempts (snd (downloadScript env inputURL name w)) = attempts w
   \<and> files (snd (downloadScript env inputURL name w)) = files w
   \<and> dirs (snd (downloadScript env inputURL name w)) = dirs w
   \<and> (urlparse env inputURL \<noteq> None \<longrightarrow> fst (downloadScript env inputURL name w) = None)"
proof (cases "urlparse env inputURL")
  case None
  with assms(1) show ?thesis by (simp add: downloadScript_def Let_def)
next
  case (Some sn)
  obtain scheme netloc where "sn = (scheme, netloc)" by (cases sn)
  with Some assms show ?thesis
    by (simp add: downloadScript_match download_session_done)
qed

theorem already_downloaded_short_circuit_witness:
  "re_search ''https://bbb.example/playback/presentation/2.3/0123456789abcdef0123456789ABCDEF01234567-1234567890123/''
       = Some (''2.3'', ''0123456789abcdef0123456789ABCDEF01234567-1234567890123'')
   \<and> os_path_isfile (empty_world\<lparr>files := [''/srv/downloadedMeetings/lecture/rec_fully_downloaded.txt'' \<mapsto> []]\<rparr>)
        (sentinel_path (folderPath_of (example_env True example_answers (\<lambda>b. None) True) ''lecture''
           ''0123456789abcdef0123456789ABCDEF01234567-1234567890123''))
   \<and> fst (downloadScript (example_env True example_answers (\<lambda>b. None) True)
        ''https://bbb.example/playback/presentation/2.3/0123456789abcdef0123456789ABCDEF01234567-1234567890123/''
        ''lecture''
        (empty_world\<lparr>files := [''/srv/downloadedMeetings/lecture/rec_fully_downloaded.txt'' \<mapsto> []]\<rparr>)) = None
   \<and> requests (snd (downloadScript (example_env True example_answers (\<lambda>b. None) True)
        ''https://bbb.example/playback/presentation/2.3/0123456789abcdef0123456789ABCDEF01234567-1234567890123/''
        ''lecture''
        (empty_world\<lparr>files := [''/srv/downloadedMeetings/lecture/rec_fully_downloaded.txt'' \<mapsto> []]\<rparr>))) = []"
proof -
  let ?E = "example_env True example_answers (\<lambda>b. None) True"
  let ?W = "empty_world\<lparr>files := [''/srv/downloadedMeetings/lecture/rec_fully_downloaded.txt'' \<mapsto> []]\<rparr>"
  note m = example_url_match
  have s: "os_path_isfile ?W (sentinel_path (folderPath_of ?E ''lecture''
           ''0123456789abcdef0123456789ABCDEF01234567-1234567890123''))"
    by (simp add: os_path_isfile_def sentinel_path_def folderPath_of_def os_path_join_def
        join_step_def endswith_sep_def embedded_null_def DOWNLOADED_FULLY_FILENAME_def
        DOWNLOADED_MEETINGS_FOLDER_def example_env_def empty_world_def)
  have u: "urlparse ?E x \<noteq> None" for x by (simp add: example_env_def)
  show ?thesis
    using already_downloaded_short_circuit [OF m s] m s u
    by (simp add: empty_world_def)
qed

text \<open>
  C7. When the pattern of line 251 does not match the URL, \<^verbatim>\<open>downloadScript\<close> leaves
  through \<^verbatim>\<open>exit(1)\<close>: it raises \<^verbatim>\<open>SystemExit\<close>, and no directory has been
  created, no file written, no fetch attempted and no request made. When the pattern
  matches, the second group (the session id) is 40 hexadecimal digits, a hyphen and 13
  decimal digits.
\<close>

theorem resolver_invalid_url:
  "(re_search inputURL = None \<longrightarrow>
      fst (downloadScript env inputURL name w) = Some (SystemExit 1)
    \<and> dirs (snd (downloadScript env inputURL name w)) = dirs w
    \<and> files (snd (downloadScript env inputURL name w)) = files w
    \<and> attempts (snd (downloadScript env inputURL name w)) = attempts w
    \<and> requests (snd (downloadScript env inputURL name w)) = requests w)
   \<and> (\<forall>bbbVersion meetingId. re_search inputURL = Some (bbbVersion, meetingId) \<longrightarrow>
        length meetingId = 54 \<and> list_all is_hex (take 40 meetingId)
        \<and> meetingId ! 40 = CHR ''-'' \<and> list_all is_digit (drop 41 meetingId))"
  using re_search_shape [of inputURL]
  by (auto simp: downloadScript_no_match is_session_id_def)

theorem resolver_invalid_url_witness:
  "re_search ''https://bbb.example/playback/presentation/2.3/no-session-here'' = None
   \<and> fst (downloadScript (example_env True example_answers (\<lambda>b. None) True)
        ''https://bbb.example/playback/presentation/2.3/no-session-here'' ''lecture''
        empty_world) = Some (SystemExit 1)
   \<and> dirs (snd (downloadScript (example_env True example_answers (\<lambda>b. None) True)
        ''https://bbb.example/playback/presentation/2.3/no-session-here'' ''lecture''
        empty_world)) = {}
   \<and> re_search ''https://bbb.example/playback/presentation/2.3/0123456789abcdef0123456789ABCDEF01234567-1234567890123/''
       = Some (''2.3'', ''0123456789abcdef0123456789ABCDEF01234567-1234567890123'')
   \<and> length ''0123456789abcdef0123456789ABCDEF01234567-1234567890123'' = 54"
proof -
  have n: "re_search ''https://bbb.example/playback/presentation/2.3/no-session-here'' = None"
    by (simp add: match_here_def version_here_def id_here_def is_digit_def is_hex_def)
  note m = example_url_match
  show ?thesis
    using resolver_invalid_url [of "''https://bbb.example/playback/presentation/2.3/no-session-here''"
        "example_env True example_answers (\<lambda>b. None) True" "''lecture''" empty_world]
      resolver_invalid_url [of "''https://bbb.example/playback/presentation/2.3/0123456789abcdef0123456789ABCDEF01234567-1234567890123/''"
        "example_env True example_answers (\<lambda>b. None) True" "''lecture''" empty_world]
      n m
    by (simp add: empty_world_def)
qed

text \<open>
  C8, as amended. When the pattern matches and \<^verbatim>\<open>urlparse\<close> gives scheme and netloc,
  \<^verbatim>\<open>downloadScript\<close> runs lines 276-308 with the base URL
  \<^verbatim>\<open>scheme://netloc/presentation/<meetingId>/\<close> and with the folder
  \<^verbatim>\<open><meetingsRoot>/<meetingId>\<close> when no name is given,
  \<^verbatim>\<open><meetingsRoot>/<name>\<close> when the name does not start with a slash, and the name
  itself when it does (\<^verbatim>\<open>os.path.join\<close> drops what precedes an absolute component).
  The meetings root is \<^verbatim>\<open>os.path.join(SCRIPT_DIR, "downloadedMeetings")\<close>.
\<close>

theorem resolver_derives:
  assumes "re_search inputURL = Some (bbbVersion, meetingId)"
    and "urlparse env inputURL = Some (scheme, netloc)"
  shows "downloadScript env inputURL name w =
     download_session env
       (scheme @ ''://'' @ netloc @ ''/presentation/'' @ meetingId @ ''/'')
       (if name = [] then downloadedMeetingsFolderPath (SCRIPT_DIR env) @ ''/'' @ meetingId
        else if startswith_sep name then name
        else downloadedMeetingsFolderPath (SCRIPT_DIR env) @ ''/'' @ name)
       (logger_info (''Detected meeting id:'' @ [CHR 0x09] @ meetingId)
          (logger_info (''Detected bbb version:'' @ [CHR 0x09] @ bbbVersion) w))"
  using downloadScript_match [OF assms, of name w]
    folderPath_of_cases [OF re_search_shape [OF assms(1)], of env name]
  by (simp add: baseURL_of_def)

theorem resolver_derives_witness:
  "re_search ''https://bbb.example/playback/presentation/2.3/0123456789abcdef0123456789ABCDEF01234567-1234567890123/''
       = Some (''2.3'', ''0123456789abcdef0123456789ABCDEF01234567-1234567890123'')
   \<and> urlparse (example_env True example_answers (\<lambda>b. None) True)
        ''https://bbb.example/playback/presentation/2.3/0123456789abcdef0123456789ABCDEF01234567-1234567890123/''
       = Some (''https'', ''bbb.example'')
   \<and> downloadScript (example_env True example_answers (\<lambda>b. None) True)
        ''https://bbb.example/playback/presentation/2.3/0123456789abcdef0123456789ABCDEF01234567-1234567890123/''
        ''lecture'' empty_world =
       download_session (example_env True example_answers (\<lambda>b. None) True)
        ''https://bbb.example/presentation/0123456789abcdef0123456789ABCDEF01234567-1234567890123/''
        ''/srv/downloadedMeetings/lecture''
        (logger_info (''Detected meeting id:'' @ [CHR 0x09]
                        @ ''0123456789abcdef0123456789ABCDEF01234567-1234567890123'')
           (logger_info (''Detected bbb version:'' @ [CHR 0x09] @ ''2.3'') empty_world))"
proof -
  let ?E = "example_env True example_answers (\<lambda>b. None) True"
  note m = example_url_match
  have u: "urlparse ?E x = Some (''https'', ''bbb.example'')" for x
    by (simp add: example_env_def)
  have d: "downloadedMeetingsFolderPath (SCRIPT_DIR ?E) = ''/srv/downloadedMeetings''"
    by (simp add: downloadedMeetingsFolderPath_def os_path_join_def join_step_def
        endswith_sep_def DOWNLOADED_MEETINGS_FOLDER_def example_env_def)
  show ?thesis
    using resolver_derives [OF m u, of "''lecture''" empty_world] m u d
    by simp
qed

text \<open>
  C8 as stated fails: for the name \<^verbatim>\<open>/tmp/x\<close> the folder is \<^verbatim>\<open>/tmp/x\<close>, not a
  folder under the meetings root.
\<close>

theorem resolver_derives_counterexample:
  "re_search ''https://bbb.example/playback/presentation/2.3/0123456789abcdef0123456789ABCDEF01234567-1234567890123/''
       = Some (''2.3'', ''0123456789abcdef0123456789ABCDEF01234567-1234567890123'')
   \<and> folderPath_of (example_env True example_answers (\<lambda>b. None) True) ''/tmp/x''
        ''0123456789abcdef0123456789ABCDEF01234567-1234567890123'' = ''/tmp/x''
   \<and> folderPath_of (example_env True example_answers (\<lambda>b. None) True) ''/tmp/x''
        ''0123456789abcdef0123456789ABCDEF01234567-1234567890123''
       \<noteq> downloadedMeetingsFolderPath (SCRIPT_DIR (example_env True example_answers (\<lambda>b. None) True))
           @ ''/'' @ ''/tmp/x''"
proof -
  note m = example_url_match
  show ?thesis
    using m
    by (simp add: folderPath_of_def downloadedMeetingsFolderPath_def os_path_join_def join_step_def
        endswith_sep_def DOWNLOADED_MEETINGS_FOLDER_def example_env_def)
qed

text \<open>
  C9, as amended. What \<^verbatim>\<open>hello\<close> hands to the template is determined by: the listing
  of the meetings root, which of the listed names are directories, and, for each, whether
  it holds \<^verbatim>\<open>index.html\<close> and \<^verbatim>\<open>asset-manifest.json\<close> (this chooses the link).
  Whether a session directory holds the sentinel has no influence. The names in the result
  are the directories of the listing in lexicographic order.
\<close>

theorem hello_uses:
  "(listdir fs' (downloadedMeetingsFolderPath script_dir)
       = listdir fs (downloadedMeetingsFolderPath script_dir)
    \<and> (\<forall>m. isdir fs' (os_path_join (downloadedMeetingsFolderPath script_dir) [m])
           = isdir fs (os_path_join (downloadedMeetingsFolderPath script_dir) [m]))
    \<and> (\<forall>m. isfile fs' (os_path_join (downloadedMeetingsFolderPath script_dir) [m, ''index.html''])
           = isfile fs (os_path_join (downloadedMeetingsFolderPath script_dir) [m, ''index.html'']))
    \<and> (\<forall>m. isfile fs' (os_path_join (downloadedMeetingsFolderPath script_dir)
                          [m, ''asset-manifest.json''])
           = isfile fs (os_path_join (downloadedMeetingsFolderPath script_dir)
                          [m, ''asset-manifest.json'']))
    \<longrightarrow> hello script_dir fs' message = hello script_dir fs message)
   \<and> hello script_dir
       (fs\<lparr>isfile := (isfile fs)
          (sentinel_path (os_path_join (downloadedMeetingsFolderPath script_dir) [d]) := b)\<rparr>)
       message = hello script_dir fs message
   \<and> (\<forall>links msg. fst (hello script_dir fs message) = Inr (links, msg) \<longrightarrow>
         sorted (map snd links) \<and> msg = message)
   \<and> (\<forall>names. listdir fs (downloadedMeetingsFolderPath script_dir) = Some names \<longrightarrow>
         fst (hello script_dir fs message) =
           Inr (map (meetingLink script_dir fs)
                  (sort (filter (\<lambda>folder. isdir fs
                     (os_path_join (downloadedMeetingsFolderPath script_dir) [folder])) names)),
                message))"
proof (intro conjI impI allI)
  assume a: "listdir fs' (downloadedMeetingsFolderPath script_dir)
       = listdir fs (downloadedMeetingsFolderPath script_dir)
    \<and> (\<forall>m. isdir fs' (os_path_join (downloadedMeetingsFolderPath script_dir) [m])
           = isdir fs (os_path_join (downloadedMeetingsFolderPath script_dir) [m]))
    \<and> (\<forall>m. isfile fs' (os_path_join (downloadedMeetingsFolderPath script_dir) [m, ''index.html''])
           = isfile fs (os_path_join (downloadedMeetingsFolderPath script_dir) [m, ''index.html'']))
    \<and> (\<forall>m. isfile fs' (os_path_join (downloadedMeetingsFolderPath script_dir)
                          [m, ''asset-manifest.json''])
           = isfile fs (os_path_join (downloadedMeetingsFolderPath script_dir)
                          [m, ''asset-manifest.json'']))"
  show "hello script_dir fs' message = hello script_dir fs message"
    by (rule hello_cong) (use a in \<open>simp_all add: meetingLink_def\<close>)
next
  show "hello script_dir
       (fs\<lparr>isfile := (isfile fs)
          (sentinel_path (os_path_join (downloadedMeetingsFolderPath script_dir) [d]) := b)\<rparr>)
       message = hello script_dir fs message"
    by (rule hello_sentinel)
next
  fix links msg
  assume "fst (hello script_dir fs message) = Inr (links, msg)"
  then show "sorted (map snd links)" "msg = message"
    using hello_sorted by blast+
next
  fix names
  assume "listdir fs (downloadedMeetingsFolderPath script_dir) = Some names"
  then show "fst (hello script_dir fs message) =
           Inr (map (meetingLink script_dir fs)
                  (sort (filter (\<lambda>folder. isdir fs
                     (os_path_join (downloadedMeetingsFolderPath script_dir) [folder])) names)),
                message)"
    by (rule hello_names)
qed

theorem hello_uses_witness:
  "hello ''/srv'' (example_fs True True) ''msg'' = hello ''/srv'' (example_fs True False) ''msg''
   \<and> fst (hello ''/srv'' (example_fs True True) ''msg'') =
       Inr ([(''/downloadedMeetings/m1/index.html'', ''m1''),
             (''/downloadedMeetings/m2/player/playback.html'', ''m2'')], ''msg'')
   \<and> sorted [''m1'', ''m2'']"
proof -
  have s: "sentinel_path (os_path_join (downloadedMeetingsFolderPath ''/srv'') [''m1''])
      = ''/srv/downloadedMeetings/m1/rec_fully_downloaded.txt''"
    by (simp add: sentinel_path_def example_root os_path_join_def join_step_def endswith_sep_def
        DOWNLOADED_FULLY_FILENAME_def)
  have e: "(example_fs True True)\<lparr>isfile := (isfile (example_fs True True))
      (''/srv/downloadedMeetings/m1/rec_fully_downloaded.txt'' := False)\<rparr> = example_fs True False"
    by (auto simp: example_fs_def fun_eq_iff)
  show ?thesis
    using hello_uses [of "example_fs True False" "''/srv''" "example_fs True True" "''msg''"
        "''m1''" False]
    unfolding s e
    by (simp add: example_hello)
qed

text \<open>
  C9 as stated fails: the two file systems below have the same listing, the same
  directories and the same sentinels, and \<^verbatim>\<open>hello\<close> gives different pages, because
  it looks at the player files; and sessions without a sentinel are listed like the others.
\<close>

theorem hello_uses_counterexample:
  "listdir (example_fs True True) (downloadedMeetingsFolderPath ''/srv'')
     = listdir (example_fs False True) (downloadedMeetingsFolderPath ''/srv'')
   \<and> isdir (example_fs True True) = isdir (example_fs False True)
   \<and> isfile (example_fs True True) ''/srv/downloadedMeetings/m1/rec_fully_downloaded.txt''
     = isfile (example_fs False True) ''/srv/downloadedMeetings/m1/rec_fully_downloaded.txt''
   \<and> isfile (example_fs True True) ''/srv/downloadedMeetings/m2/rec_fully_downloaded.txt''
     = isfile (example_fs False True) ''/srv/downloadedMeetings/m2/rec_fully_downloaded.txt''
   \<and> hello ''/srv'' (example_fs True True) ''msg'' \<noteq> hello ''/srv'' (example_fs False True) ''msg''
   \<and> fst (hello ''/srv'' (example_fs False False) ''msg'')
     = Inr ([(''/downloadedMeetings/m1/player/playback.html'', ''m1''),
             (''/downloadedMeetings/m2/player/playback.html'', ''m2'')], ''msg'')"
  by (simp add: example_hello) (simp add: example_fs_def)

text \<open>
  C10, as amended. Without the accelerated backend, the body of every \<^verbatim>\<open>try\<close> raises
  \<^verbatim>\<open>NameError\<close> for \<^verbatim>\<open>bar\<close> before any request is made, and the handler swallows it and
  logs it at level ERROR. The manifest loop returns normally; the two phases make no request
  and change no file. Lines 298-308 return normally (and write the sentinel) exactly when a
  metadata file that is already in the folder can be opened and parsed, is not malformed,
  the copy of the player succeeds and the sentinel can be opened. When the metadata file
  cannot be opened or parsed, as in a fresh folder, the run raises that exception and
  leaves the files as they were.
\<close>

theorem urllib_path_never_fetches:
  assumes "\<not> smartDlEnabled env"
  shows "try_fetch env u p w = (Some (NameError ''bar''), w)
   \<and> fetch env warning u p w =
       (None, logger_exception [] (NameError ''bar'') (w\<lparr>attempts := attempts w @ [(u, p)]\<rparr>))
   \<and> fst (downloadFiles env baseURL folderPath w) = None
   \<and> files (after_phases env baseURL folderPath w) = files w
   \<and> requests (after_phases env baseURL folderPath w) = requests w
   \<and> (fst (download_and_mark env baseURL folderPath w) = None) =
       (case load_metadata env folderPath w of
          Inl e \<Rightarrow> False
        | Inr data \<Rightarrow>
            \<not> malformed folderPath data
            \<and> fst (copy_tree env (os_path_join (SCRIPT_DIR env) [''player23'']) folderPath
                     (after_phases env baseURL folderPath w)) = None
            \<and> open_w_raises env (sentinel_path folderPath) = None)
   \<and> (\<forall>e. load_metadata env folderPath w = Inl e \<longrightarrow>
         fst (download_and_mark env baseURL folderPath w) = Some e
         \<and> files (snd (download_and_mark env baseURL folderPath w)) = files w)"
  using assms try_fetch_no_backend [of env u p w] fetch_no_backend [of env warning u p w]
    downloadFiles_returns [of env baseURL folderPath w]
    download_and_mark_no_backend [OF assms, where baseURL = baseURL and folderPath = folderPath
      and w = w]
  by (simp add: after_phases_def downloadSlides_files_no_backend downloadFiles_files_no_backend
      downloadSlides_requests_no_backend downloadFiles_requests_no_backend)

theorem urllib_path_never_fetches_witness:
  "smartDlEnabled (example_env False example_answers (\<lambda>b. Some (JObject [])) True) = False
   \<and> fst (download_and_mark (example_env False example_answers (\<lambda>b. Some (JObject [])) True)
          ''https://h/'' ''/m''
          (empty_world\<lparr>files := [''/m/presentation_text.json'' \<mapsto> ''doc'']\<rparr>)) = None
   \<and> requests (after_phases (example_env False example_answers (\<lambda>b. Some (JObject [])) True)
          ''https://h/'' ''/m''
          (empty_world\<lparr>files := [''/m/presentation_text.json'' \<mapsto> ''doc'']\<rparr>)) = []"
proof -
  let ?E = "example_env False example_answers (\<lambda>b. Some (JObject [])) True"
  let ?W = "empty_world\<lparr>files := [''/m/presentation_text.json'' \<mapsto> ''doc'']\<rparr>"
  have n: "\<not> smartDlEnabled ?E" by (simp add: example_env_def)
  have l: "load_metadata ?E ''/m'' ?W = Inr (JObject [])"
    by (simp add: load_metadata_def embedded_null_def example_env_def empty_world_def)
  show ?thesis
    using urllib_path_never_fetches [OF n, where w = ?W and baseURL = "''https://h/''"
        and folderPath = "''/m''"] n l
    by (simp add: malformed_def example_copy example_open empty_world_def)
qed

text \<open>
  C10 as stated fails: in a fresh folder, without the accelerated backend, the metadata
  file is never fetched, \<^verbatim>\<open>downloadSlides\<close> raises at \<^verbatim>\<open>open\<close> (line 82), and the
  sentinel is not written, although the server has the file.
\<close>

theorem urllib_path_counterexample:
  "smartDlEnabled (example_env False example_answers (\<lambda>b. Some (JObject [])) True) = False
   \<and> fst (download_and_mark (example_env False example_answers (\<lambda>b. Some (JObject [])) True)
          ''https://h/'' ''/m'' empty_world) = Some OSError
   \<and> files (snd (download_and_mark (example_env False example_answers (\<lambda>b. Some (JObject [])) True)
          ''https://h/'' ''/m'' empty_world)) (sentinel_path ''/m'') = None"
proof -
  let ?E = "example_env False example_answers (\<lambda>b. Some (JObject [])) True"
  have n: "\<not> smartDlEnabled ?E" by (simp add: example_env_def)
  have l: "load_metadata ?E ''/m'' empty_world = Inl OSError"
    by (simp add: load_metadata_def embedded_null_def empty_world_def)
  show ?thesis
    using download_and_mark_no_backend(2) [OF n l, of "''https://h/''"] n
    by (simp add: empty_world_def)
qed

end
